theory Spec2Isabelle
  imports Complex_Main "HOL-Library.List_Lexorder" "HOL-Library.Multiset"
begin

section \<open>Numbers, rows and faults\<close>

text \<open>
  The notebooks compute with float64 arrays. The embedding uses the reals: every
  identity below is an identity of exact arithmetic, and rounding is not modelled.
  A covariate vector (one row of the array \<open>X\<close>) is a list of reals; a two-dimensional
  array is a list of rows, all of one width.

  Python exceptions are values of \<open>fault\<close>. Where numpy and torch do not raise but
  return \<open>inf\<close> or \<open>nan\<close> (a division by a zero float, the mean of an empty array, the
  logarithm of a number that is not positive), the model has no such number: it stops
  with \<open>NonFinite\<close>, so a result \<open>Inr v\<close> is always the exact value of a run in which
  every intermediate number was finite.
\<close>

type_synonym row = "real list"

datatype fault = IndexError | ValueError | AttributeError | NonFinite

text \<open>\<open>a.mean()\<close> of a one-dimensional array.\<close>

definition np_mean :: "real list \<Rightarrow> fault + real" where
  "np_mean xs = (if xs = [] then Inl NonFinite else Inr (sum_list xs / real (length xs)))"

text \<open>\<open>X[index]\<close> with an integer index array: numpy raises IndexError on an index
  that is out of bounds.\<close>

definition take_idx :: "'a list \<Rightarrow> nat list \<Rightarrow> fault + 'a list" where
  "take_idx xs idx =
     (if list_all (\<lambda>i. i < length xs) idx then Inr (map (\<lambda>i. xs ! i) idx)
      else Inl IndexError)"

text \<open>Sequencing: a fault ends the computation, as a raised exception does.\<close>

definition bind_fault :: "fault + 'a \<Rightarrow> ('a \<Rightarrow> fault + 'b) \<Rightarrow> fault + 'b" where
  "bind_fault m f = (case m of Inl e \<Rightarrow> Inl e | Inr v \<Rightarrow> f v)"

text \<open>A fallible function applied to every element of an array, in order.\<close>

fun map_fault :: "('a \<Rightarrow> fault + 'b) \<Rightarrow> 'a list \<Rightarrow> fault + 'b list" where
  "map_fault f [] = Inr []"
| "map_fault f (x # xs) =
     bind_fault (f x) (\<lambda>v. bind_fault (map_fault f xs) (\<lambda>vs. Inr (v # vs)))"

section \<open>The empirical probability mass function\<close>

text \<open>
  \<^verbatim>\<open>def pmf(x, cats, p_cats):
      ind = np.where((cats==x).all(axis=1))[0][0]
      return p_cats[ind]\<close>

  \<open>np.where(...)[0]\<close> is the array of the indices of the rows of \<open>cats\<close> equal to \<open>x\<close>;
  its element \<open>[0]\<close> does not exist when no row matches, and numpy raises IndexError.
  The function is the same in both conditional-expectation notebooks.
\<close>

definition matching_rows :: "row list \<Rightarrow> row \<Rightarrow> nat list" where
  "matching_rows cats x = filter (\<lambda>i. cats ! i = x) [0..<length cats]"

definition pmf :: "row \<Rightarrow> row list \<Rightarrow> real list \<Rightarrow> fault + real" where
  "pmf x cats p_cats =
     (case matching_rows cats x of
        [] \<Rightarrow> Inl IndexError
      | ind # _ \<Rightarrow> if ind < length p_cats then Inr (p_cats ! ind) else Inl IndexError)"

text \<open>
  \<^verbatim>\<open>cats_train, counts_train = np.unique(X_train, axis=0, return_counts=True)
  p_cats_train = counts_train / len(X_train)\<close>

  \<open>np.unique\<close> along axis 0 returns the distinct rows in lexicographic order and how
  often each occurs.
\<close>

definition np_unique :: "row list \<Rightarrow> row list \<times> nat list" where
  "np_unique X = (let cats = sort (remdups X) in (cats, map (count_list X) cats))"

definition p_cats_of :: "row list \<Rightarrow> real list" where
  "p_cats_of X = map (\<lambda>c. real c / real (length X)) (snd (np_unique X))"

section \<open>Float64 rounding\<close>

text \<open>
  The arrays of the notebooks hold float64 numbers, and every arithmetic operation of
  numpy returns the float64 number nearest to the exact result, the one with the even
  significand when two are equally near. \<open>fl64\<close> is that rounding to a significand of
  53 bits: \<open>ulp x\<close> is the distance between neighbouring float64 numbers at the
  magnitude of \<open>x\<close>. The exponent is not bounded in the model; float64 agrees with it
  on all magnitudes between \<open>2^-1022\<close> and \<open>2^1024\<close>, which contain the counts, the
  lengths and the frequencies of every array numpy can hold.
\<close>

definition ulp :: "real \<Rightarrow> real" where
  "ulp x = 2 powr of_int (\<lfloor>log 2 \<bar>x\<bar>\<rfloor> - 52)"

definition round_half_even :: "real \<Rightarrow> int" where
  "round_half_even m =
     (if m - of_int \<lfloor>m\<rfloor> < 1 / 2 then \<lfloor>m\<rfloor>
      else if 1 / 2 < m - of_int \<lfloor>m\<rfloor> then \<lfloor>m\<rfloor> + 1
      else if even \<lfloor>m\<rfloor> then \<lfloor>m\<rfloor> else \<lfloor>m\<rfloor> + 1)"

definition fl64 :: "real \<Rightarrow> real" where
  "fl64 x = (if x = 0 then 0 else of_int (round_half_even (x / ulp x)) * ulp x)"

text \<open>
  \<open>p_cats_train = counts_train / len(X_train)\<close> as numpy computes it: the integer
  counts and the length are converted to float64 and each quotient is rounded.
  \<open>p_cats_of\<close> above is the same table in exact arithmetic.
\<close>

definition p_cats_f64 :: "row list \<Rightarrow> real list" where
  "p_cats_f64 X =
     map (\<lambda>c. fl64 (fl64 (real c) / fl64 (real (length X)))) (snd (np_unique X))"

text \<open>
  The notebooks never add the frequencies up; the property that they sum to one within a
  tolerance speaks of a sum taken in float64. \<open>f64_sum\<close> accumulates an array from left
  to right and rounds after each addition.
\<close>

definition f64_sum :: "real list \<Rightarrow> real" where
  "f64_sum ps = foldl (\<lambda>s p. fl64 (s + p)) 0 ps"

section \<open>The influence function of the conditional mean\<close>

text \<open>
  The body of the loop over the held-out observations, the same in both notebooks:

  \<^verbatim>\<open>y_tilde = y_test[i]
  x_tilde = X_test[i]
  EY_tildeX = reg.predict(x_tilde.reshape(1, -1))
  y_Ey = y_tilde - EY_tildeX
  if (x_tilde == cond_X_est).all():
      delta_over_fx = 1 / pmf(x_tilde, cats_train, p_cats_train)
  else:
      delta_over_fx = 0
  all_phi.append(delta_over_fx * y_Ey)\<close>

  The fitted regression \<open>reg\<close> is a library object; its \<open>predict\<close> is the parameter
  \<open>reg\<close> of the model.
\<close>

definition influence ::
  "(row \<Rightarrow> real) \<Rightarrow> row \<Rightarrow> row list \<Rightarrow> real list \<Rightarrow> row \<Rightarrow> real \<Rightarrow> fault + real" where
  "influence reg cond_X cats p_cats x_tilde y_tilde =
     (let EY_tildeX = reg x_tilde;
          y_Ey = y_tilde - EY_tildeX
      in if x_tilde = cond_X then
           bind_fault (pmf x_tilde cats p_cats)
             (\<lambda>p. if p = 0 then Inl NonFinite else Inr (1 / p * y_Ey))
         else Inr (0 * y_Ey))"

text \<open>The loop \<open>for i in range(len(X_test))\<close>: the first fault ends it.\<close>

fun all_phi ::
  "(row \<Rightarrow> real) \<Rightarrow> row \<Rightarrow> row list \<Rightarrow> real list \<Rightarrow> row list \<Rightarrow> real list
     \<Rightarrow> fault + real list" where
  "all_phi reg cond_X cats p_cats [] ys = Inr []"
| "all_phi reg cond_X cats p_cats (x # xs) [] = Inl IndexError"
| "all_phi reg cond_X cats p_cats (x # xs) (y # ys) =
     bind_fault (influence reg cond_X cats p_cats x y) (\<lambda>v.
     bind_fault (all_phi reg cond_X cats p_cats xs ys) (\<lambda>vs.
       Inr (v # vs)))"

section \<open>The k-fold estimator\<close>

text \<open>
  One pass of the loop \<open>for train_index, test_index in kf.split(X)\<close> of the k-fold
  notebook, up to the list \<open>all_phi\<close>:

  \<^verbatim>\<open>X_train = X[train_index]
  X_test = X[test_index]
  y_train = y[train_index]
  y_test = y[test_index]
  reg = LinearRegression().fit(X_train, y_train)
  psi = reg.predict((cond_X_est).reshape(1, -1))
  psis.append(psi)
  cats_train, counts_train = np.unique(X_train, axis=0,return_counts=True)
  p_cats_train = counts_train / len(X_train)
  all_phi = []
  for i in range(len(X_test)): ...\<close>

  \<open>LinearRegression().fit\<close> is a library call: the parameter \<open>fit\<close>, a function from
  the training data to the fitted predictor. The notebook runs the loop twice, once on
  the covariates without the interaction column and once with it; the two cells differ
  in the array and the query vector they pass, which are the parameters \<open>X\<close> and
  \<open>cond_X\<close> here.
\<close>

definition fold_body ::
  "(row list \<Rightarrow> real list \<Rightarrow> row \<Rightarrow> real) \<Rightarrow> row \<Rightarrow> row list \<Rightarrow> real list
     \<Rightarrow> nat list \<times> nat list \<Rightarrow> fault + (real \<times> real list)" where
  "fold_body fit cond_X X y split =
     bind_fault (take_idx X (fst split)) (\<lambda>X_train.
     bind_fault (take_idx X (snd split)) (\<lambda>X_test.
     bind_fault (take_idx y (fst split)) (\<lambda>y_train.
     bind_fault (take_idx y (snd split)) (\<lambda>y_test.
       let reg = fit X_train y_train;
           psi = reg cond_X
       in bind_fault
            (all_phi reg cond_X (fst (np_unique X_train)) (p_cats_of X_train) X_test y_test)
            (\<lambda>phi_values. Inr (psi, phi_values))))))"

text \<open>
  The loop over the folds carries the two variables the notebook initialises before it,
  \<open>psis = []\<close> and \<open>phis = []\<close>. Each pass ends with

  \<^verbatim>\<open>psis.append(psi)
      ...
      phis = np.asarray(all_phi)\<close>

  so \<open>psis\<close> grows by one element and \<open>phis\<close> is assigned anew.
\<close>

fun kfold_loop ::
  "(row list \<Rightarrow> real list \<Rightarrow> row \<Rightarrow> real) \<Rightarrow> row \<Rightarrow> row list \<Rightarrow> real list
     \<Rightarrow> (nat list \<times> nat list) list \<Rightarrow> real list \<Rightarrow> real list
     \<Rightarrow> fault + (real list \<times> real list)" where
  "kfold_loop fit cond_X X y [] psis phis = Inr (psis, phis)"
| "kfold_loop fit cond_X X y (split # splits) psis phis =
     bind_fault (fold_body fit cond_X X y split) (\<lambda>(psi, phi_values).
       kfold_loop fit cond_X X y splits (psis @ [psi]) phi_values)"

text \<open>
  After the loop:

  \<^verbatim>\<open>phi = phis.mean()
  psi = np.asarray(psis).mean()
  psi_est_updated = psi + phi\<close>

  The result is the pair appended to \<open>biased_psis\<close> and \<open>upd_psis\<close>. With no fold at
  all \<open>phis\<close> is still the Python list \<open>[]\<close>, which has no \<open>mean\<close>.
\<close>

definition kfold_estimate ::
  "(row list \<Rightarrow> real list \<Rightarrow> row \<Rightarrow> real) \<Rightarrow> row \<Rightarrow> row list \<Rightarrow> real list
     \<Rightarrow> (nat list \<times> nat list) list \<Rightarrow> fault + (real \<times> real)" where
  "kfold_estimate fit cond_X X y splits =
     (if splits = [] then Inl AttributeError
      else bind_fault (kfold_loop fit cond_X X y splits [] []) (\<lambda>(psis, phis).
           bind_fault (np_mean phis) (\<lambda>phi.
           bind_fault (np_mean psis) (\<lambda>psi.
             Inr (psi, psi + phi)))))"

section \<open>The splits\<close>

text \<open>
  The tutorial splits the sample in two halves:

  \<^verbatim>\<open>X_ds1 = X[: len(X)//2]
  X_ds2 = X[len(X)//2 :]\<close>
\<close>

definition half_split :: "'a list \<Rightarrow> 'a list \<times> 'a list" where
  "half_split xs = (take (length xs div 2) xs, drop (length xs div 2) xs)"

text \<open>
  Modelled from the spec: the k-fold notebook takes its folds from scikit-learn's
  \<open>KFold(n_splits=k, shuffle=True).split(X)\<close>, whose code is not among the sources.
  The spec asks for \<open>k\<close> disjoint folds of nearly equal size over a random shuffling
  of the indices, and an error for a malformed fold count. The model follows the
  library's documented rule: the shuffled index list is cut into consecutive slices,
  the first \<open>n_samples mod n_splits\<close> of size \<open>n_samples div n_splits + 1\<close> and the
  others of size \<open>n_samples div n_splits\<close>; each slice is a test fold, its complement
  the training fold, both returned in increasing order. The shuffled index list is the
  parameter \<open>indices\<close>.
\<close>

definition fold_sizes :: "nat \<Rightarrow> nat \<Rightarrow> nat list" where
  "fold_sizes n_samples n_splits =
     map (\<lambda>j. n_samples div n_splits + (if j < n_samples mod n_splits then 1 else 0))
       [0..<n_splits]"

fun slices :: "'a list \<Rightarrow> nat list \<Rightarrow> 'a list list" where
  "slices xs [] = []"
| "slices xs (n # ns) = take n xs # slices (drop n xs) ns"

definition KFold_split :: "nat \<Rightarrow> nat \<Rightarrow> nat list \<Rightarrow> fault + (nat list \<times> nat list) list" where
  "KFold_split n_splits n_samples indices =
     (if n_splits < 2 \<or> n_samples < n_splits then Inl ValueError
      else Inr (map (\<lambda>t. (filter (\<lambda>i. i \<notin> set t) [0..<n_samples],
                           filter (\<lambda>i. i \<in> set t) [0..<n_samples]))
                  (slices indices (fold_sizes n_samples n_splits))))"

section \<open>The two-way estimator of the tutorial\<close>

text \<open>
  \<open>all_phi_ds1s + all_phi_ds2s\<close> adds two arrays of shapes \<open>(n1, 1)\<close> and \<open>(n2, 1)\<close>:
  element by element when \<open>n1 = n2\<close>, with the single row repeated when one of them has
  one row, and with a ValueError otherwise.
\<close>

definition np_add :: "real list \<Rightarrow> real list \<Rightarrow> fault + real list" where
  "np_add a b =
     (if length a = length b then Inr (map2 (+) a b)
      else if length a = 1 then Inr (map (\<lambda>v. hd a + v) b)
      else if length b = 1 then Inr (map (\<lambda>v. v + hd b) a)
      else Inl ValueError)"

text \<open>
  Steps 2 to 9 of the tutorial. \<open>RandomForestRegressor().fit\<close> is a library call that
  draws from numpy's global generator: the parameter \<open>fit\<close> takes the generator's state
  and returns the fitted predictor and the state it leaves. The notebook assigns the
  second forest to \<open>reg\<close> again; the model calls it \<open>reg2\<close>.

  \<^verbatim>\<open>reg = RandomForestRegressor().fit(X_ds1, y_ds1)
  psi_ds1 = reg.predict((cond_X_est).reshape(1, -1))
  cats_ds1, counts_ds1 = np.unique(X_ds1, axis=0,return_counts=True)
  p_cats_ds1 = counts_ds1 / len(X_ds1)
  ... all_phi_ds2s ...
  reg = RandomForestRegressor().fit(X_ds2, y_ds2)
  psi_ds2 = reg.predict((cond_X_est).reshape(1, -1))
  ... all_phi_ds1s ...
  phi_est = ((all_phi_ds1s + all_phi_ds2s)/2).mean()
  psi_est =  (psi_ds1 + psi_ds2) / 2
  psi_est_updated = psi_est + phi_est\<close>
\<close>

definition tutorial_estimate ::
  "('g \<Rightarrow> row list \<Rightarrow> real list \<Rightarrow> (row \<Rightarrow> real) \<times> 'g) \<Rightarrow> row \<Rightarrow> row list \<Rightarrow> real list \<Rightarrow> 'g
     \<Rightarrow> fault + (real \<times> real)" where
  "tutorial_estimate fit cond_X_est X y g =
     (let X_ds1 = fst (half_split X); X_ds2 = snd (half_split X);
          y_ds1 = fst (half_split y); y_ds2 = snd (half_split y);
          reg = fst (fit g X_ds1 y_ds1); g1 = snd (fit g X_ds1 y_ds1);
          psi_ds1 = reg cond_X_est;
          reg2 = fst (fit g1 X_ds2 y_ds2);
          psi_ds2 = reg2 cond_X_est
      in bind_fault
           (all_phi reg cond_X_est (fst (np_unique X_ds1)) (p_cats_of X_ds1) X_ds2 y_ds2)
           (\<lambda>all_phi_ds2s.
         bind_fault
           (all_phi reg2 cond_X_est (fst (np_unique X_ds2)) (p_cats_of X_ds2) X_ds1 y_ds1)
           (\<lambda>all_phi_ds1s.
         bind_fault (np_add all_phi_ds1s all_phi_ds2s) (\<lambda>both.
         bind_fault (np_mean (map (\<lambda>v. v / 2) both)) (\<lambda>phi_est.
           let psi_est = (psi_ds1 + psi_ds2) / 2
           in Inr (psi_est, psi_est + phi_est))))))"

section \<open>Data generation and the random generator\<close>

text \<open>
  numpy's legacy generator is one global state: \<open>np.random.seed(s)\<close> sets it, every
  draw reads it and advances it. The state is explicit in the model, of a type \<open>'g\<close>,
  and the library functions that produce the numbers are the fields of a record:
  the state \<open>np.random.seed\<close> sets, one Bernoulli(0.5) draw, one standard normal draw,
  and the in-place shuffle of an index array. \<open>KFold(n_splits=k, shuffle=True)\<close> is
  built without a \<open>random_state\<close>, and scikit-learn then shuffles with this global
  generator.
\<close>

record 'g np_random =
  seed_state :: "int \<Rightarrow> 'g"
  binomial :: "'g \<Rightarrow> real \<times> 'g"
  randn :: "'g \<Rightarrow> real \<times> 'g"
  shuffle :: "'g \<Rightarrow> nat list \<Rightarrow> nat list \<times> 'g"

text \<open>An array of \<open>n\<close> draws.\<close>

fun draws :: "('g \<Rightarrow> 'a \<times> 'g) \<Rightarrow> nat \<Rightarrow> 'g \<Rightarrow> 'a list \<times> 'g" where
  "draws d 0 g = ([], g)"
| "draws d (Suc n) g =
     (let r = d g; rest = draws d n (snd r) in (fst r # fst rest, snd rest))"

text \<open>\<open>np.concatenate([X0, X1, X2, X3, X4, X2*X3], 1)\<close>, a row at a time.\<close>

definition design :: "real list \<Rightarrow> real list \<Rightarrow> real list \<Rightarrow> real list \<Rightarrow> row list" where
  "design X1 X2 X3 X4 =
     map (\<lambda>(a, b, c, d). [1, a, b, c, d, b * c]) (zip X1 (zip X2 (zip X3 X4)))"

definition dot :: "real list \<Rightarrow> real list \<Rightarrow> real" where
  "dot r beta = sum_list (map2 (*) r beta)"

text \<open>
  The k-fold notebook:

  \<^verbatim>\<open>def data_gen(N, beta, seed):
      np.random.seed(seed)
      X0 = np.array([1.0]).repeat(N).reshape(-1, 1)
      X1 = np.random.binomial(1, 0.5, N).reshape(-1, 1)
      ...
      X = np.concatenate([X0, X1, X2, X3, X4, X2*X3], 1)
      u =  0.5*np.random.randn(N)
      y = np.dot(X, beta) + u
      return X[:,1:-1], X, y, u\<close>

  \<open>g\<close> is the state of the generator when the function is called; the function returns
  the state it leaves as well. \<open>np.dot\<close> raises a ValueError unless \<open>beta\<close> has the six
  entries of a row.
\<close>

definition data_gen ::
  "'g np_random \<Rightarrow> nat \<Rightarrow> real list \<Rightarrow> int \<Rightarrow> 'g
     \<Rightarrow> fault + ((row list \<times> row list \<times> real list \<times> real list) \<times> 'g)" where
  "data_gen R N beta seed g =
     (let g0 = seed_state R seed;
          d1 = draws (binomial R) N g0;
          d2 = draws (binomial R) N (snd d1);
          d3 = draws (binomial R) N (snd d2);
          d4 = draws (binomial R) N (snd d3);
          X = design (fst d1) (fst d2) (fst d3) (fst d4);
          d5 = draws (randn R) N (snd d4);
          u = map (\<lambda>v. 0.5 * v) (fst d5)
      in if length beta = 6 then
           Inr ((map (\<lambda>r. butlast (tl r)) X, X, map2 (\<lambda>r e. dot r beta + e) X u, u), snd d5)
         else Inl ValueError)"

text \<open>
  The tutorial's \<open>data_gen(N, beta)\<close> has no seed and no call of \<open>np.random.seed\<close>; its
  outcome is \<open>y = np.log((np.dot(X, beta)) + u**2)\<close>.
\<close>

definition np_log :: "real \<Rightarrow> fault + real" where
  "np_log v = (if 0 < v then Inr (ln v) else Inl NonFinite)"

definition data_gen_tutorial ::
  "'g np_random \<Rightarrow> nat \<Rightarrow> real list \<Rightarrow> 'g
     \<Rightarrow> fault + ((row list \<times> row list \<times> real list \<times> real list) \<times> 'g)" where
  "data_gen_tutorial R N beta g =
     (let d1 = draws (binomial R) N g;
          d2 = draws (binomial R) N (snd d1);
          d3 = draws (binomial R) N (snd d2);
          d4 = draws (binomial R) N (snd d3);
          X = design (fst d1) (fst d2) (fst d3) (fst d4);
          d5 = draws (randn R) N (snd d4);
          u = map (\<lambda>v. 0.5 * v) (fst d5)
      in if length beta = 6 then
           bind_fault (map_fault np_log (map2 (\<lambda>r e. dot r beta + e\<^sup>2) X u)) (\<lambda>y.
             Inr ((map (\<lambda>r. butlast (tl r)) X, X, y, u), snd d5))
         else Inl ValueError)"

text \<open>
  One pass of the k-fold notebook's outer loop, from \<open>data_gen(N=N, beta=beta,
  seed=seed)\<close> to the two numbers appended to \<open>biased_psis\<close> and \<open>upd_psis\<close>, started
  with the generator in state \<open>g\<close>.
\<close>

definition kfold_replicate ::
  "'g np_random \<Rightarrow> (row list \<Rightarrow> real list \<Rightarrow> row \<Rightarrow> real) \<Rightarrow> nat \<Rightarrow> real list \<Rightarrow> nat \<Rightarrow> row
     \<Rightarrow> int \<Rightarrow> 'g \<Rightarrow> fault + (real \<times> real)" where
  "kfold_replicate R fit N beta k cond_X_est seed g =
     bind_fault (data_gen R N beta seed g) (\<lambda>generated.
       let X = fst (fst generated);
           y = fst (snd (snd (fst generated)));
           indices = fst (shuffle R (snd generated) [0..<N])
       in bind_fault (KFold_split k N indices) (\<lambda>splits.
            kfold_estimate fit cond_X_est X y splits))"

text \<open>The tutorial from its \<open>data_gen(N=N, beta=beta)\<close> to \<open>psi_est\<close> and
  \<open>psi_est_updated\<close>, started with the generator in state \<open>g\<close>.\<close>

definition tutorial_run ::
  "'g np_random \<Rightarrow> ('g \<Rightarrow> row list \<Rightarrow> real list \<Rightarrow> (row \<Rightarrow> real) \<times> 'g) \<Rightarrow> nat \<Rightarrow> real list \<Rightarrow> row
     \<Rightarrow> 'g \<Rightarrow> fault + (real \<times> real)" where
  "tutorial_run R fit N beta cond_X_est g =
     bind_fault (data_gen_tutorial R N beta g) (\<lambda>generated.
       tutorial_estimate fit cond_X_est (fst (fst generated))
         (fst (snd (snd (fst generated)))) (snd generated))"

section \<open>The entropy notebook\<close>

text \<open>
  \<^verbatim>\<open>def nu(a, dx):
      return - a * torch.log(a/dx)
  def phi(b):
      return b
  def entropy(p, dx):
      return phi((nu(p, dx)).sum())\<close>

  \<open>nu\<close> works on an array element by element. \<open>torch.log\<close> of a number that is not
  positive is \<open>nan\<close> or \<open>-inf\<close>.
\<close>

definition nu :: "real \<Rightarrow> real \<Rightarrow> fault + real" where
  "nu a dx = (if 0 < a / dx then Inr (- a * ln (a / dx)) else Inl NonFinite)"

definition phi :: "real \<Rightarrow> real" where
  "phi b = b"

definition entropy :: "real list \<Rightarrow> real \<Rightarrow> fault + real" where
  "entropy p dx = bind_fault (map_fault (\<lambda>a. nu a dx) p) (\<lambda>nus. Inr (phi (sum_list nus)))"

text \<open>
  The notebook takes derivatives with torch's autograd:
  \<open>t.backward(torch.ones(t.shape))\<close> leaves in \<open>.grad\<close> of the leaf tensor the derivative
  of the function applied to it, element by element. For \<open>nu\<close> that derivative is
  \<open>nu_pr\<close>, for \<open>phi\<close> it is \<open>phi_pr\<close>; that they are the derivatives is proved below.
\<close>

definition nu_pr :: "real \<Rightarrow> real \<Rightarrow> fault + real" where
  "nu_pr a dx = (if 0 < a / dx then Inr (- (ln (a / dx) + 1)) else Inl NonFinite)"

definition phi_pr :: "real \<Rightarrow> real" where
  "phi_pr b = 1"

text \<open>
  The three factors, as Part 1 computes them from the density on the grid \<open>p_r\<close> and
  the density at the samples of the other split \<open>p_xi\<close>; Part 2 is the same code with
  the names of the splits exchanged.

  \<^verbatim>\<open>int_nu_p_ds1 = nu(p_r_ds1, dx).sum()
  phi_int_nu_p_ds1 = phi(int_nu_p_ds1)
  A_ds1 = int_nu_p_ds1.grad.data
  nu_p_xi_ds2 = nu(p_xi_ds2, dx)
  nu_pr_p_xi_ds2 = p_xi_ds2.grad.data
  B_ds1 = nu_pr_p_xi_ds2.mean()
  nu_p_ds1 = nu(p_r_ds1, dx)
  nu_pr_p_ds1 = p_r_ds1.grad.data
  C_ds1 = (p_r_ds1 * nu_pr_p_ds1).sum()
  psi_ds1 = A_ds1 * (B_ds1 - C_ds1)\<close>
\<close>

definition factor_A :: "real list \<Rightarrow> real \<Rightarrow> fault + real" where
  "factor_A p_r dx =
     bind_fault (map_fault (\<lambda>a. nu a dx) p_r) (\<lambda>nus. Inr (phi_pr (sum_list nus)))"

definition factor_B :: "real list \<Rightarrow> real \<Rightarrow> fault + real" where
  "factor_B p_xi dx =
     bind_fault (map_fault (\<lambda>a. nu a dx) p_xi) (\<lambda>nus.
     bind_fault (map_fault (\<lambda>a. nu_pr a dx) p_xi) np_mean)"

definition factor_C :: "real list \<Rightarrow> real \<Rightarrow> fault + real" where
  "factor_C p_r dx =
     bind_fault (map_fault (\<lambda>a. nu a dx) p_r) (\<lambda>nus.
     bind_fault (map_fault (\<lambda>a. nu_pr a dx) p_r) (\<lambda>nu_pr_p.
       Inr (sum_list (map2 (*) p_r nu_pr_p))))"

definition correction :: "real list \<Rightarrow> real list \<Rightarrow> real \<Rightarrow> fault + real" where
  "correction p_r p_xi dx =
     bind_fault (factor_A p_r dx) (\<lambda>A.
     bind_fault (factor_B p_xi dx) (\<lambda>B.
     bind_fault (factor_C p_r dx) (\<lambda>C.
       Inr (A * (B - C)))))"

text \<open>
  The densities. \<open>KernelDensity(...).fit\<close> is a library call: the parameter \<open>fit\<close> maps
  a sample to the density \<open>np.exp(kde.score_samples(.))\<close> of the fitted estimator. \<open>x\<close>
  is the sample, \<open>r\<close> the grid \<open>np.arange(-10, 10, dx)\<close>.

  \<^verbatim>\<open>x1 = x[:len(x)//2]
  x2 = x[len(x)//2:]
  kde_ds1 = KernelDensity(kernel='gaussian', bandwidth=0.2).fit(x1)
  kde_ds2 = KernelDensity(kernel='gaussian', bandwidth=0.2).fit(x2)
  p_r_ds1 = np.exp(kde_ds1.score_samples(r_ds1)) * dx
  p_r_ds2 = np.exp(kde_ds1.score_samples(r_ds2)) * dx\<close>
\<close>

definition kde_ds1 :: "(real list \<Rightarrow> real \<Rightarrow> real) \<Rightarrow> real list \<Rightarrow> real \<Rightarrow> real" where
  "kde_ds1 fit x = fit (fst (half_split x))"

definition kde_ds2 :: "(real list \<Rightarrow> real \<Rightarrow> real) \<Rightarrow> real list \<Rightarrow> real \<Rightarrow> real" where
  "kde_ds2 fit x = fit (snd (half_split x))"

definition p_r_ds1 :: "(real list \<Rightarrow> real \<Rightarrow> real) \<Rightarrow> real list \<Rightarrow> real list \<Rightarrow> real \<Rightarrow> real list" where
  "p_r_ds1 fit x r dx = map (\<lambda>t. kde_ds1 fit x t * dx) r"

definition p_r_ds2 :: "(real list \<Rightarrow> real \<Rightarrow> real) \<Rightarrow> real list \<Rightarrow> real list \<Rightarrow> real \<Rightarrow> real list" where
  "p_r_ds2 fit x r dx = map (\<lambda>t. kde_ds1 fit x t * dx) r"

text \<open>
  \<^verbatim>\<open>est_ds1 = entropy(p_r_ds1, dx)
  est_ds2 = entropy(p_r_ds2, dx)
  p_xi_ds2 = torch.tensor(np.exp(kde_ds1.score_samples(x2))) * dx
  p_xi_ds1 = torch.tensor(np.exp(kde_ds2.score_samples(x1))) * dx\<close>
\<close>

definition est_ds1 :: "(real list \<Rightarrow> real \<Rightarrow> real) \<Rightarrow> real list \<Rightarrow> real list \<Rightarrow> real \<Rightarrow> fault + real" where
  "est_ds1 fit x r dx = entropy (p_r_ds1 fit x r dx) dx"

definition est_ds2 :: "(real list \<Rightarrow> real \<Rightarrow> real) \<Rightarrow> real list \<Rightarrow> real list \<Rightarrow> real \<Rightarrow> fault + real" where
  "est_ds2 fit x r dx = entropy (p_r_ds2 fit x r dx) dx"

definition p_xi_ds2 :: "(real list \<Rightarrow> real \<Rightarrow> real) \<Rightarrow> real list \<Rightarrow> real \<Rightarrow> real list" where
  "p_xi_ds2 fit x dx = map (\<lambda>t. kde_ds1 fit x t * dx) (snd (half_split x))"

definition p_xi_ds1 :: "(real list \<Rightarrow> real \<Rightarrow> real) \<Rightarrow> real list \<Rightarrow> real \<Rightarrow> real list" where
  "p_xi_ds1 fit x dx = map (\<lambda>t. kde_ds2 fit x t * dx) (fst (half_split x))"

definition psi_ds1 :: "(real list \<Rightarrow> real \<Rightarrow> real) \<Rightarrow> real list \<Rightarrow> real list \<Rightarrow> real \<Rightarrow> fault + real" where
  "psi_ds1 fit x r dx = correction (p_r_ds1 fit x r dx) (p_xi_ds2 fit x dx) dx"

definition psi_ds2 :: "(real list \<Rightarrow> real \<Rightarrow> real) \<Rightarrow> real list \<Rightarrow> real list \<Rightarrow> real \<Rightarrow> fault + real" where
  "psi_ds2 fit x r dx = correction (p_r_ds2 fit x r dx) (p_xi_ds1 fit x dx) dx"

text \<open>
  \<^verbatim>\<open>est = (est_ds1 + est_ds2) / 2
  psi = (psi_ds1 + psi_ds2) / 2
  updated_est = est + psi\<close>
\<close>

definition updated_est ::
  "(real list \<Rightarrow> real \<Rightarrow> real) \<Rightarrow> real list \<Rightarrow> real list \<Rightarrow> real \<Rightarrow> fault + (real \<times> real)" where
  "updated_est fit x r dx =
     bind_fault (est_ds1 fit x r dx) (\<lambda>e1.
     bind_fault (est_ds2 fit x r dx) (\<lambda>e2.
     bind_fault (psi_ds1 fit x r dx) (\<lambda>c1.
     bind_fault (psi_ds2 fit x r dx) (\<lambda>c2.
       let est = (e1 + e2) / 2; psi = (c1 + c2) / 2
       in Inr (est, est + psi)))))"

section \<open>Sequencing\<close>

lemma bind_fault_Inl [simp]: "bind_fault (Inl e) f = Inl e"
  by (simp add: bind_fault_def)

lemma bind_fault_Inr [simp]: "bind_fault (Inr v) f = f v"
  by (simp add: bind_fault_def)

lemma bind_fault_eq_Inr:
  "bind_fault m f = Inr r \<longleftrightarrow> (\<exists>v. m = Inr v \<and> f v = Inr r)"
  by (cases m) simp_all

section \<open>Properties of the empirical table\<close>

lemma np_unique_cats: "fst (np_unique X) = sort (remdups X)"
  by (simp add: np_unique_def Let_def)

lemma np_unique_distinct: "distinct (fst (np_unique X))"
  by (simp add: np_unique_cats)

lemma np_unique_set: "set (fst (np_unique X)) = set X"
  by (simp add: np_unique_cats)

lemma p_cats_of_eq:
  "p_cats_of X = map (\<lambda>c. real (count_list X c) / real (length X)) (fst (np_unique X))"
  by (simp add: p_cats_of_def np_unique_def Let_def)

lemma matching_rows_distinct:
  assumes "distinct cats" and "i < length cats"
  shows "matching_rows cats (cats ! i) = [i]"
proof -
  have "filter (\<lambda>j. cats ! j = cats ! i) [0..<length cats] = filter (\<lambda>j. j = i) [0..<length cats]"
    using assms by (intro filter_cong refl) (auto simp: nth_eq_iff_index_eq)
  also have "\<dots> = [i]"
    using assms(2) by (induction cats rule: rev_induct) (auto simp: less_Suc_eq)
  finally show ?thesis by (simp add: matching_rows_def)
qed

lemma matching_rows_absent: "x \<notin> set cats \<Longrightarrow> matching_rows cats x = []"
  by (auto simp: matching_rows_def filter_empty_conv)

lemma pmf_table_present:
  assumes "x \<in> set X"
  shows "pmf x (fst (np_unique X)) (p_cats_of X) = Inr (real (count_list X x) / real (length X))"
proof -
  let ?cats = "fst (np_unique X)"
  from assms have "x \<in> set ?cats" by (simp add: np_unique_set)
  then obtain i where i: "i < length ?cats" "?cats ! i = x"
    by (auto simp: in_set_conv_nth)
  have m: "matching_rows ?cats x = [i]"
    using matching_rows_distinct [OF np_unique_distinct i(1)] i(2) by simp
  show ?thesis
    using i by (simp add: pmf_def m p_cats_of_eq)
qed

lemma pmf_table_absent:
  "x \<notin> set X \<Longrightarrow> pmf x (fst (np_unique X)) (p_cats_of X) = Inl IndexError"
  by (simp add: pmf_def matching_rows_absent np_unique_set)

lemma sum_p_cats_of:
  assumes "X \<noteq> []"
  shows "sum_list (p_cats_of X) = 1"
proof -
  let ?n = "real (length X)"
  have "sum_list (p_cats_of X) = (\<Sum>c\<in>set X. real (count_list X c) / ?n)"
    unfolding p_cats_of_eq
    using sum_list_distinct_conv_sum_set [OF np_unique_distinct, of "\<lambda>c. real (count_list X c) / ?n" X]
    by (simp add: np_unique_set)
  also have "\<dots> = real (\<Sum>c\<in>set X. count_list X c) / ?n"
    by (simp add: sum_divide_distrib)
  also have "(\<Sum>c\<in>set X. count_list X c) = length X"
    using sum_list_map_eq_sum_count [of "\<lambda>_. 1::nat" X] by (simp add: sum_list_triv)
  finally show ?thesis using assms by simp
qed

section \<open>The table in float64\<close>

lemma round_half_even_error: "\<bar>of_int (round_half_even m) - m\<bar> \<le> 1 / 2"
proof -
  have "of_int \<lfloor>m\<rfloor> \<le> m" and "m < of_int \<lfloor>m\<rfloor> + 1" by linarith+
  then show ?thesis by (auto simp: round_half_even_def)
qed

lemma ulp_pos: "0 < ulp x"
  by (simp add: ulp_def)

lemma ulp_le:
  assumes "x \<noteq> 0"
  shows "ulp x \<le> \<bar>x\<bar> / 2 ^ 52"
proof -
  have "2 powr of_int \<lfloor>log 2 \<bar>x\<bar>\<rfloor> \<le> 2 powr log 2 \<bar>x\<bar>"
    by (intro powr_mono) simp_all
  also have "\<dots> = \<bar>x\<bar>" using assms by simp
  finally have le: "2 powr of_int \<lfloor>log 2 \<bar>x\<bar>\<rfloor> \<le> \<bar>x\<bar>" .
  have "ulp x = 2 powr of_int \<lfloor>log 2 \<bar>x\<bar>\<rfloor> * 2 powr (- 52)"
    by (simp add: ulp_def powr_add [symmetric])
  also have "2 powr (- 52 :: real) = 1 / 2 ^ 52"
    by (simp add: powr_minus_divide)
  finally show ?thesis using le by (simp add: divide_right_mono)
qed

lemma fl64_error: "\<bar>fl64 x - x\<bar> \<le> \<bar>x\<bar> / 2 ^ 53"
proof (cases "x = 0")
  case True
  then show ?thesis by (simp add: fl64_def)
next
  case False
  let ?s = "ulp x"
  have s: "0 < ?s" by (rule ulp_pos)
  have "fl64 x - x = (of_int (round_half_even (x / ?s)) - x / ?s) * ?s"
    using False s by (simp add: fl64_def field_simps)
  then have "\<bar>fl64 x - x\<bar> = \<bar>of_int (round_half_even (x / ?s)) - x / ?s\<bar> * ?s"
    using s by (simp add: abs_mult)
  also have "\<dots> \<le> 1 / 2 * ?s"
    using s by (intro mult_right_mono round_half_even_error) simp
  also have "\<dots> \<le> 1 / 2 * (\<bar>x\<bar> / 2 ^ 52)"
    using ulp_le [OF False] by simp
  finally show ?thesis by simp
qed

lemma fl64_nonneg:
  assumes "0 \<le> x"
  shows "0 \<le> fl64 x"
proof -
  have "\<bar>x\<bar> / 2 ^ 53 \<le> x" using assms by (simp add: field_simps)
  with fl64_error [of x] have "\<bar>fl64 x - x\<bar> \<le> x" by linarith
  then show ?thesis by linarith
qed

lemma fl64_rel: "\<exists>d. \<bar>d\<bar> \<le> 1 / 2 ^ 53 \<and> fl64 x = x * (1 + d)"
proof (cases "x = 0")
  case True
  then show ?thesis by (intro exI [of _ 0]) (simp add: fl64_def)
next
  case False
  let ?d = "(fl64 x - x) / x"
  have "\<bar>?d\<bar> = \<bar>fl64 x - x\<bar> / \<bar>x\<bar>" by (simp add: abs_divide)
  also have "\<dots> \<le> (\<bar>x\<bar> / 2 ^ 53) / \<bar>x\<bar>"
    using fl64_error [of x] by (intro divide_right_mono) simp_all
  also have "\<dots> = 1 / 2 ^ 53" using False by simp
  finally have "\<bar>?d\<bar> \<le> 1 / 2 ^ 53" .
  moreover have "fl64 x = x * (1 + ?d)" using False by (simp add: field_simps)
  ultimately show ?thesis by blast
qed

lemma ulp_eval:
  assumes "2 powr of_int e \<le> \<bar>x\<bar>" and "\<bar>x\<bar> < 2 powr of_int (e + 1)"
  shows "ulp x = 2 powr of_int (e - 52)"
proof -
  have "0 < (2 :: real) powr of_int e" by simp
  from this assms(1) have "0 < \<bar>x\<bar>" by (rule less_le_trans)
  then have "\<lfloor>log 2 \<bar>x\<bar>\<rfloor> = e"
    using assms by (subst floor_log_eq_powr_iff) simp_all
  then show ?thesis by (simp add: ulp_def)
qed

lemma three_roundings:
  fixes d1 d2 d3 :: real
  assumes "\<bar>d1\<bar> \<le> 1 / 2 ^ 53" and "\<bar>d2\<bar> \<le> 1 / 2 ^ 53" and "\<bar>d3\<bar> \<le> 1 / 2 ^ 53"
  shows "\<bar>(1 + d1) * (1 + d3) / (1 + d2) - 1\<bar> \<le> 1 / 2 ^ 51"
proof -
  let ?u = "1 / 2 ^ 53 :: real"
  let ?t = "d1 + d3 + d1 * d3 - d2"
  have prod: "\<bar>d1 * d3\<bar> \<le> ?u * ?u"
    unfolding abs_mult by (intro mult_mono assms) simp_all
  have t: "\<bar>?t\<bar> \<le> 3 * ?u + ?u * ?u"
    using assms prod by linarith
  have den: "1 - ?u \<le> 1 + d2" and pos: "0 < 1 - ?u"
    using assms(2) by (simp_all add: abs_le_iff)
  then have pos2: "0 < 1 + d2" by linarith
  have "(1 + d1) * (1 + d3) / (1 + d2) - 1 = ?t / (1 + d2)"
    using pos2 by (simp add: field_simps)
  then have "\<bar>(1 + d1) * (1 + d3) / (1 + d2) - 1\<bar> = \<bar>?t\<bar> / (1 + d2)"
    using pos2 by (simp add: abs_divide)
  also have "\<dots> \<le> (3 * ?u + ?u * ?u) / (1 - ?u)"
    using t den pos by (intro frac_le) simp_all
  also have "\<dots> \<le> 1 / 2 ^ 51"
    by simp
  finally show ?thesis .
qed

lemma frequency_f64_error:
  assumes "0 < n"
  shows "\<bar>fl64 (fl64 (real c) / fl64 (real n)) - real c / real n\<bar> \<le> (real c / real n) / 2 ^ 51"
proof -
  obtain d1 where d1: "\<bar>d1\<bar> \<le> 1 / 2 ^ 53" "fl64 (real c) = real c * (1 + d1)"
    using fl64_rel by blast
  obtain d2 where d2: "\<bar>d2\<bar> \<le> 1 / 2 ^ 53" "fl64 (real n) = real n * (1 + d2)"
    using fl64_rel by blast
  let ?q = "real c * (1 + d1) / (real n * (1 + d2))"
  obtain d3 where d3: "\<bar>d3\<bar> \<le> 1 / 2 ^ 53" "fl64 ?q = ?q * (1 + d3)"
    using fl64_rel by blast
  have pos2: "0 < 1 + d2" using d2(1) by (simp add: abs_le_iff)
  have "fl64 (fl64 (real c) / fl64 (real n)) = ?q * (1 + d3)"
    by (simp only: d1(2) d2(2) d3(2))
  also have "\<dots> = real c / real n * ((1 + d1) * (1 + d3) / (1 + d2))"
    by simp
  finally have "fl64 (fl64 (real c) / fl64 (real n)) - real c / real n
      = real c / real n * ((1 + d1) * (1 + d3) / (1 + d2) - 1)"
    by (simp add: right_diff_distrib)
  then have "\<bar>fl64 (fl64 (real c) / fl64 (real n)) - real c / real n\<bar>
      = real c / real n * \<bar>(1 + d1) * (1 + d3) / (1 + d2) - 1\<bar>"
    by (simp add: abs_mult)
  also have "\<dots> \<le> real c / real n * (1 / 2 ^ 51)"
    by (intro mult_left_mono three_roundings d1 d2 d3) simp
  finally show ?thesis by simp
qed

lemma sum_list_abs_diff:
  fixes f g :: "'a \<Rightarrow> real"
  shows "\<bar>sum_list (map f xs) - sum_list (map g xs)\<bar> \<le> (\<Sum>x\<leftarrow>xs. \<bar>f x - g x\<bar>)"
proof (induction xs)
  case Nil
  show ?case by simp
next
  case (Cons a xs)
  have "\<bar>sum_list (map f (a # xs)) - sum_list (map g (a # xs))\<bar>
      = \<bar>(f a - g a) + (sum_list (map f xs) - sum_list (map g xs))\<bar>"
    by simp
  also have "\<dots> \<le> \<bar>f a - g a\<bar> + \<bar>sum_list (map f xs) - sum_list (map g xs)\<bar>"
    by (rule abs_triangle_ineq)
  finally show ?case using Cons.IH by simp
qed

lemma sum_list_divide:
  fixes f :: "'a \<Rightarrow> real"
  shows "(\<Sum>x\<leftarrow>xs. f x / c) = sum_list (map f xs) / c"
  by (induction xs) (simp_all add: add_divide_distrib)

lemma p_cats_f64_eq:
  "p_cats_f64 X =
     map (\<lambda>c. fl64 (fl64 (real (count_list X c)) / fl64 (real (length X)))) (fst (np_unique X))"
  by (simp add: p_cats_f64_def np_unique_def Let_def)

lemma sum_p_cats_f64:
  assumes "X \<noteq> []"
  shows "\<bar>sum_list (p_cats_f64 X) - 1\<bar> \<le> 1 / 2 ^ 51"
proof -
  let ?cats = "fst (np_unique X)"
  let ?f = "\<lambda>c. fl64 (fl64 (real (count_list X c)) / fl64 (real (length X)))"
  let ?g = "\<lambda>c. real (count_list X c) / real (length X)"
  from assms have n: "0 < length X" by simp
  have one: "sum_list (map ?g ?cats) = 1"
    using sum_p_cats_of [OF assms] by (simp add: p_cats_of_eq)
  have "\<bar>sum_list (map ?f ?cats) - sum_list (map ?g ?cats)\<bar> \<le> (\<Sum>c\<leftarrow>?cats. \<bar>?f c - ?g c\<bar>)"
    by (rule sum_list_abs_diff)
  also have "\<dots> \<le> (\<Sum>c\<leftarrow>?cats. ?g c / 2 ^ 51)"
    by (intro sum_list_mono frequency_f64_error n)
  also have "\<dots> = sum_list (map ?g ?cats) / 2 ^ 51"
    by (rule sum_list_divide)
  finally show ?thesis by (simp add: one p_cats_f64_eq)
qed

lemma f64_sum_snoc: "f64_sum (ps @ [p]) = fl64 (f64_sum ps + p)"
  by (simp add: f64_sum_def)

lemma f64_sum_error:
  assumes "list_all (\<lambda>p. 0 \<le> p) ps"
  shows "\<bar>f64_sum ps - sum_list ps\<bar> \<le> ((1 + 1 / 2 ^ 53) ^ length ps - 1) * sum_list ps"
  using assms
proof (induction ps rule: rev_induct)
  case Nil
  show ?case by (simp add: f64_sum_def)
next
  case (snoc p ps)
  let ?u = "1 / 2 ^ 53 :: real"
  let ?E = "(1 + ?u) ^ length ps - 1"
  let ?S = "sum_list ps"
  from snoc.prems have nn: "list_all (\<lambda>p. 0 \<le> p) ps" and p: "0 \<le> p" by simp_all
  from nn have S: "0 \<le> ?S" by (induction ps) simp_all
  have E: "0 \<le> ?E" by simp
  from snoc.IH [OF nn] have IH: "\<bar>f64_sum ps - ?S\<bar> \<le> ?E * ?S" .
  obtain d where d: "\<bar>d\<bar> \<le> ?u" "fl64 (f64_sum ps + p) = (f64_sum ps + p) * (1 + d)"
    using fl64_rel by blast
  have step: "f64_sum (ps @ [p]) = (f64_sum ps + p) * (1 + d)"
    by (simp only: f64_sum_snoc d(2))
  have "f64_sum (ps @ [p]) - sum_list (ps @ [p])
      = (f64_sum ps - ?S) * (1 + d) + (?S + p) * d"
    by (simp add: step algebra_simps)
  then have "\<bar>f64_sum (ps @ [p]) - sum_list (ps @ [p])\<bar>
      \<le> \<bar>(f64_sum ps - ?S) * (1 + d)\<bar> + \<bar>(?S + p) * d\<bar>"
    by (simp add: abs_triangle_ineq)
  also have "\<bar>(f64_sum ps - ?S) * (1 + d)\<bar> \<le> (?E * ?S) * (1 + ?u)"
    unfolding abs_mult using IH d(1) by (intro mult_mono) (simp_all add: abs_le_iff)
  also have "\<bar>(?S + p) * d\<bar> \<le> (?S + p) * ?u"
    unfolding abs_mult using S p d(1) by (intro mult_mono) simp_all
  also have "(?E * ?S) * (1 + ?u) \<le> (?E * (?S + p)) * (1 + ?u)"
    using E p by (intro mult_right_mono mult_left_mono) simp_all
  finally have "\<bar>f64_sum (ps @ [p]) - sum_list (ps @ [p])\<bar>
      \<le> (?E * (?S + p)) * (1 + ?u) + (?S + p) * ?u"
    by simp
  also have "\<dots> = ((1 + ?u) ^ length (ps @ [p]) - 1) * sum_list (ps @ [p])"
    by (simp add: algebra_simps)
  finally show ?case .
qed

lemma compound_le:
  assumes "2 * real m \<le> 2 ^ 53"
  shows "(1 + 1 / 2 ^ 53) ^ m \<le> 1 + 2 * real m / (2 ^ 53 :: real)"
  using assms
proof (induction m)
  case 0
  show ?case by simp
next
  case (Suc m)
  let ?u = "1 / 2 ^ 53 :: real"
  from Suc.prems have m: "2 * real m \<le> 2 ^ 53" by simp
  then have mu: "2 * real m * ?u \<le> 1" by simp
  have "(1 + ?u) ^ Suc m = (1 + ?u) ^ m * (1 + ?u)" by simp
  also have "\<dots> \<le> (1 + 2 * real m * ?u) * (1 + ?u)"
    using Suc.IH [OF m] by (intro mult_right_mono) simp_all
  also have "\<dots> = 1 + 2 * real m * ?u + ?u + (2 * real m * ?u) * ?u"
    by (simp add: algebra_simps)
  also have "\<dots> \<le> 1 + 2 * real m * ?u + ?u + 1 * ?u"
    using mu by (intro add_left_mono mult_right_mono) simp_all
  also have "\<dots> = 1 + 2 * real (Suc m) / 2 ^ 53"
    by (simp add: field_simps)
  finally show ?case .
qed

lemma p_cats_f64_nonneg: "list_all (\<lambda>p. 0 \<le> p) (p_cats_f64 X)"
  by (simp add: p_cats_f64_def list_all_iff fl64_nonneg)

lemma length_p_cats_f64: "length (p_cats_f64 X) = length (fst (np_unique X))"
  by (simp add: p_cats_f64_eq)

lemma f64_sum_p_cats:
  assumes "X \<noteq> []" and "length (fst (np_unique X)) \<le> 2 ^ 22"
  shows "\<bar>f64_sum (p_cats_f64 X) - 1\<bar> \<le> 1 / 10 ^ 9"
proof -
  let ?p = "p_cats_f64 X"
  let ?m = "length ?p"
  from assms(2) have "?m \<le> 2 ^ 22"
    by (simp add: length_p_cats_f64)
  then have "real ?m \<le> real (2 ^ 22)"
    by (rule of_nat_mono)
  then have m: "real ?m \<le> 2 ^ 22"
    by simp
  then have "2 * real ?m \<le> 2 ^ 53" by simp
  from compound_le [OF this] have "(1 + 1 / 2 ^ 53) ^ ?m - 1 \<le> 2 * real ?m / 2 ^ 53" by simp
  also have "\<dots> \<le> 1 / 2 ^ 30" using m by simp
  finally have E: "(1 + 1 / 2 ^ 53) ^ ?m - 1 \<le> (1 / 2 ^ 30 :: real)" .
  have S: "\<bar>sum_list ?p - 1\<bar> \<le> 1 / 2 ^ 51" by (rule sum_p_cats_f64 [OF assms(1)])
  have S0: "0 \<le> sum_list ?p"
    using p_cats_f64_nonneg [of X] by (intro sum_list_nonneg) (simp add: list_all_iff)
  have "sum_list ?p - 1 \<le> \<bar>sum_list ?p - 1\<bar>" by (rule abs_ge_self)
  also note S
  finally have S1: "sum_list ?p \<le> 1 + 1 / 2 ^ 51" by simp
  have "\<bar>f64_sum ?p - sum_list ?p\<bar> \<le> ((1 + 1 / 2 ^ 53) ^ ?m - 1) * sum_list ?p"
    by (rule f64_sum_error [OF p_cats_f64_nonneg])
  also have "\<dots> \<le> (1 / 2 ^ 30) * (1 + 1 / 2 ^ 51)"
    using E S0 S1 by (intro mult_mono) simp_all
  finally have F: "\<bar>f64_sum ?p - sum_list ?p\<bar> \<le> (1 / 2 ^ 30) * (1 + 1 / 2 ^ 51)" .
  have "\<bar>f64_sum ?p - 1\<bar> \<le> \<bar>f64_sum ?p - sum_list ?p\<bar> + \<bar>sum_list ?p - 1\<bar>"
    by linarith
  also have "\<dots> \<le> (1 / 2 ^ 30) * (1 + 1 / 2 ^ 51) + 1 / 2 ^ 51"
    by (intro add_mono F S)
  also have "\<dots> \<le> 1 / 10 ^ 9" by simp
  finally show ?thesis .
qed

lemma binary_rows_distinct:
  assumes "list_all (\<lambda>r. length r = d \<and> set r \<subseteq> {0, 1}) X"
  shows "length (fst (np_unique X)) \<le> 2 ^ d"
proof -
  let ?B = "{r :: real list. set r \<subseteq> {0, 1} \<and> length r = d}"
  have fin: "finite ?B" by (rule finite_lists_length_eq) simp
  have card: "card ?B = 2 ^ d"
    using card_lists_length_eq [of "{0, 1 :: real}" d] by (simp add: numeral_2_eq_2)
  have "set X \<subseteq> ?B" using assms by (auto simp: list_all_iff)
  then have "card (set X) \<le> 2 ^ d" using card_mono [OF fin] card by metis
  moreover have "length (fst (np_unique X)) = card (set X)"
    using distinct_card [OF np_unique_distinct, of X] by (simp add: np_unique_set)
  ultimately show ?thesis by simp
qed

lemma fl64_eval:
  assumes "2 powr of_int e \<le> \<bar>x\<bar>" and "\<bar>x\<bar> < 2 powr of_int (e + 1)"
  shows "fl64 x = of_int (round_half_even (x / 2 powr of_int (e - 52))) * 2 powr of_int (e - 52)"
proof -
  have "0 < (2 :: real) powr of_int e" by simp
  from this assms(1) have "x \<noteq> 0" by auto
  then show ?thesis by (simp add: fl64_def ulp_eval [OF assms])
qed

lemma fl64_one: "fl64 1 = 1"
  using fl64_eval [of 0 1] by (simp add: powr_minus_divide round_half_even_def)

lemma fl64_ten: "fl64 10 = 10"
  using fl64_eval [of 3 10] by (simp add: powr_minus_divide round_half_even_def)

lemma fl64_tenth: "fl64 (1 / 10) = 3602879701896397 / 36028797018963968"
  using fl64_eval [of "- 4" "1 / 10"] by (simp add: powr_minus_divide round_half_even_def)

lemma tenths_1: "fl64 (0 + 3602879701896397 / 36028797018963968) = 3602879701896397 / 36028797018963968"
  using fl64_eval [of "- 4" "0 + 3602879701896397 / 36028797018963968"] by (simp add: powr_minus_divide round_half_even_def)

lemma tenths_2: "fl64 (3602879701896397 / 36028797018963968 + 3602879701896397 / 36028797018963968) = 3602879701896397 / 18014398509481984"
  using fl64_eval [of "- 3" "3602879701896397 / 36028797018963968 + 3602879701896397 / 36028797018963968"] by (simp add: powr_minus_divide round_half_even_def)

lemma tenths_3: "fl64 (3602879701896397 / 18014398509481984 + 3602879701896397 / 36028797018963968) = 1351079888211149 / 4503599627370496"
  using fl64_eval [of "- 2" "3602879701896397 / 18014398509481984 + 3602879701896397 / 36028797018963968"] by (simp add: powr_minus_divide round_half_even_def)

lemma tenths_4: "fl64 (1351079888211149 / 4503599627370496 + 3602879701896397 / 36028797018963968) = 3602879701896397 / 9007199254740992"
  using fl64_eval [of "- 2" "1351079888211149 / 4503599627370496 + 3602879701896397 / 36028797018963968"] by (simp add: powr_minus_divide round_half_even_def)

lemma tenths_5: "fl64 (3602879701896397 / 9007199254740992 + 3602879701896397 / 36028797018963968) = 1 / 2"
  using fl64_eval [of "- 1" "3602879701896397 / 9007199254740992 + 3602879701896397 / 36028797018963968"] by (simp add: powr_minus_divide round_half_even_def)

lemma tenths_6: "fl64 (1 / 2 + 3602879701896397 / 36028797018963968) = 5404319552844595 / 9007199254740992"
  using fl64_eval [of "- 1" "1 / 2 + 3602879701896397 / 36028797018963968"] by (simp add: powr_minus_divide round_half_even_def)

lemma tenths_7: "fl64 (5404319552844595 / 9007199254740992 + 3602879701896397 / 36028797018963968) = 3152519739159347 / 4503599627370496"
  using fl64_eval [of "- 1" "5404319552844595 / 9007199254740992 + 3602879701896397 / 36028797018963968"] by (simp add: powr_minus_divide round_half_even_def)

lemma tenths_8: "fl64 (3152519739159347 / 4503599627370496 + 3602879701896397 / 36028797018963968) = 7205759403792793 / 9007199254740992"
  using fl64_eval [of "- 1" "3152519739159347 / 4503599627370496 + 3602879701896397 / 36028797018963968"] by (simp add: powr_minus_divide round_half_even_def)

lemma tenths_9: "fl64 (7205759403792793 / 9007199254740992 + 3602879701896397 / 36028797018963968) = 2026619832316723 / 2251799813685248"
  using fl64_eval [of "- 1" "7205759403792793 / 9007199254740992 + 3602879701896397 / 36028797018963968"] by (simp add: powr_minus_divide round_half_even_def)

lemma tenths_10: "fl64 (2026619832316723 / 2251799813685248 + 3602879701896397 / 36028797018963968) = 9007199254740991 / 9007199254740992"
  using fl64_eval [of "- 1" "2026619832316723 / 2251799813685248 + 3602879701896397 / 36028797018963968"] by (simp add: powr_minus_divide round_half_even_def)

lemma ten_tenths: "f64_sum [3602879701896397 / 36028797018963968, 3602879701896397 / 36028797018963968, 3602879701896397 / 36028797018963968, 3602879701896397 / 36028797018963968, 3602879701896397 / 36028797018963968, 3602879701896397 / 36028797018963968, 3602879701896397 / 36028797018963968, 3602879701896397 / 36028797018963968, 3602879701896397 / 36028797018963968, 3602879701896397 / 36028797018963968] = 9007199254740991 / 9007199254740992"
  by (simp only: f64_sum_def foldl.simps tenths_1 tenths_2 tenths_3 tenths_4 tenths_5 tenths_6 tenths_7 tenths_8 tenths_9 tenths_10)

text \<open>
  Claim C7. The table built from a non-empty training fold holds every distinct row of
  the fold once, and \<open>pmf\<close> returns for each of them its number of occurrences
  divided by the length of the fold; in exact arithmetic the frequencies sum to exactly 1.
  In float64 every stored frequency is within a relative \<open>2^-51\<close> of its exact value,
  the exact sum of the stored frequencies is within \<open>2^-51\<close> of 1, and their sum
  accumulated in float64 is within \<open>1e-9\<close> of 1 for every table of at most \<open>2^22\<close>
  distinct rows, in particular for rows of at most 22 binary covariates.
\<close>

theorem table_frequencies:
  assumes "X_train \<noteq> []"
  shows "sum_list (p_cats_of X_train) = 1
       \<and> set (fst (np_unique X_train)) = set X_train
       \<and> distinct (fst (np_unique X_train))
       \<and> length (p_cats_of X_train) = length (fst (np_unique X_train))
       \<and> (\<forall>x \<in> set X_train. pmf x (fst (np_unique X_train)) (p_cats_of X_train)
            = Inr (real (count_list X_train x) / real (length X_train)))
       \<and> length (p_cats_f64 X_train) = length (p_cats_of X_train)
       \<and> (\<forall>i < length (p_cats_of X_train).
            \<bar>p_cats_f64 X_train ! i - p_cats_of X_train ! i\<bar> \<le> p_cats_of X_train ! i / 2 ^ 51)
       \<and> \<bar>sum_list (p_cats_f64 X_train) - 1\<bar> \<le> 1 / 2 ^ 51
       \<and> \<bar>sum_list (p_cats_f64 X_train) - 1\<bar> \<le> 1 / 10 ^ 9
       \<and> (length (fst (np_unique X_train)) \<le> 2 ^ 22 \<longrightarrow>
            \<bar>f64_sum (p_cats_f64 X_train) - 1\<bar> \<le> 1 / 10 ^ 9)
       \<and> (d \<le> 22 \<and> list_all (\<lambda>r. length r = d \<and> set r \<subseteq> {0, 1}) X_train \<longrightarrow>
            \<bar>f64_sum (p_cats_f64 X_train) - 1\<bar> \<le> 1 / 10 ^ 9)"
proof -
  have exact: "sum_list (p_cats_of X_train) = 1
       \<and> set (fst (np_unique X_train)) = set X_train
       \<and> distinct (fst (np_unique X_train))
       \<and> length (p_cats_of X_train) = length (fst (np_unique X_train))
       \<and> (\<forall>x \<in> set X_train. pmf x (fst (np_unique X_train)) (p_cats_of X_train)
            = Inr (real (count_list X_train x) / real (length X_train)))"
    using assms
    by (simp add: sum_p_cats_of np_unique_set np_unique_distinct pmf_table_present)
       (simp add: p_cats_of_eq)
  have len: "length (p_cats_f64 X_train) = length (p_cats_of X_train)"
    by (simp add: p_cats_f64_eq p_cats_of_eq)
  from assms have n: "0 < length X_train" by simp
  have entry: "\<forall>i < length (p_cats_of X_train).
      \<bar>p_cats_f64 X_train ! i - p_cats_of X_train ! i\<bar> \<le> p_cats_of X_train ! i / 2 ^ 51"
  proof (intro allI impI)
    fix i assume "i < length (p_cats_of X_train)"
    then have i: "i < length (fst (np_unique X_train))" by (simp add: p_cats_of_eq)
    let ?c = "count_list X_train (fst (np_unique X_train) ! i)"
    have "p_cats_f64 X_train ! i = fl64 (fl64 (real ?c) / fl64 (real (length X_train)))"
      using i by (simp add: p_cats_f64_eq)
    moreover have "p_cats_of X_train ! i = real ?c / real (length X_train)"
      using i by (simp add: p_cats_of_eq)
    ultimately show "\<bar>p_cats_f64 X_train ! i - p_cats_of X_train ! i\<bar>
        \<le> p_cats_of X_train ! i / 2 ^ 51"
      using frequency_f64_error [OF n, of ?c] by (simp only:)
  qed
  have real_sum: "\<bar>sum_list (p_cats_f64 X_train) - 1\<bar> \<le> 1 / 2 ^ 51"
    by (rule sum_p_cats_f64 [OF assms])
  also have "(1 / 2 ^ 51 :: real) \<le> 1 / 10 ^ 9" by simp
  finally have real_sum9: "\<bar>sum_list (p_cats_f64 X_train) - 1\<bar> \<le> 1 / 10 ^ 9" .
  have seq: "\<bar>f64_sum (p_cats_f64 X_train) - 1\<bar> \<le> 1 / 10 ^ 9"
    if "length (fst (np_unique X_train)) \<le> 2 ^ 22"
    using that by (rule f64_sum_p_cats [OF assms])
  have binary: "\<bar>f64_sum (p_cats_f64 X_train) - 1\<bar> \<le> 1 / 10 ^ 9"
    if d: "d \<le> 22" and rows: "list_all (\<lambda>r. length r = d \<and> set r \<subseteq> {0, 1}) X_train"
  proof -
    have "length (fst (np_unique X_train)) \<le> 2 ^ d"
      using rows by (rule binary_rows_distinct)
    also have "(2 :: nat) ^ d \<le> 2 ^ 22"
      using d by (intro power_increasing) simp_all
    finally show ?thesis by (rule seq)
  qed
  from exact len entry real_sum real_sum9 seq binary show ?thesis by blast
qed

text \<open>
  A fold of ten distinct rows. Every frequency is the float64 number nearest to \<open>1/10\<close>;
  accumulated in float64 they sum to \<open>1 - 2^-53\<close>, which is not 1 and is within the
  tolerance.
\<close>

theorem table_frequencies_witness:
  "[[0], [1], [2], [3], [4], [5], [6], [7], [8], [9]] \<noteq> ([] :: row list)
   \<and> sum_list (p_cats_of [[0], [1], [2], [3], [4], [5], [6], [7], [8], [9]]) = 1
   \<and> pmf [3] (fst (np_unique [[0], [1], [2], [3], [4], [5], [6], [7], [8], [9]]))
         (p_cats_of [[0], [1], [2], [3], [4], [5], [6], [7], [8], [9]]) = Inr (1 / 10)
   \<and> length (fst (np_unique [[0], [1], [2], [3], [4], [5], [6], [7], [8], [9]])) \<le> 2 ^ 22
   \<and> f64_sum (p_cats_f64 [[0], [1], [2], [3], [4], [5], [6], [7], [8], [9]])
       = 9007199254740991 / 9007199254740992
   \<and> \<bar>f64_sum (p_cats_f64 [[0], [1], [2], [3], [4], [5], [6], [7], [8], [9]]) - 1\<bar> \<le> 1 / 10 ^ 9
   \<and> \<bar>sum_list (p_cats_f64 [[0], [1], [2], [3], [4], [5], [6], [7], [8], [9]]) - 1\<bar> \<le> 1 / 10 ^ 9"
proof -
  let ?X = "[[0], [1], [2], [3], [4], [5], [6], [7], [8], [9]] :: row list"
  have cats: "fst (np_unique ?X) = ?X"
    by (simp add: np_unique_def)
  have tab: "p_cats_f64 ?X = [3602879701896397 / 36028797018963968, 3602879701896397 / 36028797018963968, 3602879701896397 / 36028797018963968, 3602879701896397 / 36028797018963968, 3602879701896397 / 36028797018963968, 3602879701896397 / 36028797018963968, 3602879701896397 / 36028797018963968, 3602879701896397 / 36028797018963968, 3602879701896397 / 36028797018963968, 3602879701896397 / 36028797018963968]"
    by (simp add: p_cats_f64_def np_unique_def fl64_one fl64_ten fl64_tenth)
  have val: "f64_sum (p_cats_f64 ?X) = 9007199254740991 / 9007199254740992"
    by (simp only: tab ten_tenths)
  have ne: "?X \<noteq> []" by simp
  have small: "length (fst (np_unique ?X)) \<le> 2 ^ 22" by (simp add: cats)
  from table_frequencies [OF ne, of 0] small val ne show ?thesis by simp
qed

section \<open>The influence values\<close>

lemma influence_table:
  "influence reg cond_X (fst (np_unique X_train)) (p_cats_of X_train) x_tilde y_tilde =
     (if x_tilde = cond_X then
        if cond_X \<in> set X_train then
          Inr (1 / (real (count_list X_train cond_X) / real (length X_train)) * (y_tilde - reg x_tilde))
        else Inl IndexError
      else Inr 0)"
proof -
  have pos: "count_list X_train cond_X \<noteq> 0 \<and> X_train \<noteq> []" if "cond_X \<in> set X_train"
    using that by (auto simp: count_list_0_iff)
  show ?thesis
    using pos by (auto simp: influence_def Let_def pmf_table_present pmf_table_absent)
qed

lemma influence_other_row:
  "x_tilde \<noteq> cond_X \<Longrightarrow> influence reg cond_X cats p_cats x_tilde y_tilde = Inr 0"
  by (simp add: influence_def)



lemma all_phi_unobserved:
  assumes "cond_X \<notin> set X_train" and "cond_X \<in> set X_test" and "length y_test = length X_test"
  shows "all_phi reg cond_X (fst (np_unique X_train)) (p_cats_of X_train) X_test y_test
           = Inl IndexError"
  using assms(2,3)
proof (induction X_test arbitrary: y_test)
  case Nil
  then show ?case by simp
next
  case (Cons x xs)
  then obtain v vs where y: "y_test = v # vs" "length vs = length xs"
    by (cases y_test) auto
  show ?case
  proof (cases "x = cond_X")
    case True
    with assms(1) y show ?thesis by (simp add: influence_table)
  next
    case False
    with Cons.prems have "cond_X \<in> set xs" by auto
    from Cons.IH [OF this y(2)] False y show ?thesis by (simp add: influence_table)
  qed
qed

text \<open>
  Claim C2, as the code has it. When the training fold lacks the query vector, the
  influence value of a held-out observation equal to it is not computed: \<open>pmf\<close> raises
  the IndexError of its \<open>[0][0]\<close>, and the loop over a held-out fold that contains
  such an observation ends with that IndexError. The code has no other, labelled error.
\<close>

theorem unobserved_query_point_IndexError:
  "(cond_X \<notin> set X_train \<longrightarrow>
      influence reg cond_X (fst (np_unique X_train)) (p_cats_of X_train) cond_X y_tilde
        = Inl IndexError)
   \<and> (cond_X \<notin> set X_train \<and> cond_X \<in> set X_test \<and> length y_test = length X_test \<longrightarrow>
      all_phi reg cond_X (fst (np_unique X_train)) (p_cats_of X_train) X_test y_test
        = Inl IndexError)"
  by (simp add: influence_table all_phi_unobserved)

theorem unobserved_query_point_witness:
  "[1, 0, 1, 0] \<notin> set [[0, 0, 0, 0], [1, 1, 0, 0 :: real]]
   \<and> [1, 0, 1, 0] \<in> set [[0, 0, 0, 0], [1, 0, 1, 0 :: real]]
   \<and> all_phi (\<lambda>x. 0) [1, 0, 1, 0] (fst (np_unique [[0, 0, 0, 0], [1, 1, 0, 0]]))
        (p_cats_of [[0, 0, 0, 0], [1, 1, 0, 0]]) [[0, 0, 0, 0], [1, 0, 1, 0]] [2, 3]
       = Inl IndexError"
  using unobserved_query_point_IndexError [of "[1, 0, 1, 0]" "[[0, 0, 0, 0], [1, 1, 0, 0]]"
      "\<lambda>x. 0" 0 "[[0, 0, 0, 0], [1, 0, 1, 0]]" "[2, 3]"]
  by simp

text \<open>
  The fault at a concrete fold: the training fold is the single row \<open>[0, 0, 0, 0]\<close>, the
  query vector and the held-out row are \<open>[1, 0, 1, 0]\<close>.
\<close>

theorem unobserved_query_point_counterexample:
  "influence (\<lambda>x. 0) [1, 0, 1, 0] (fst (np_unique [[0, 0, 0, 0]])) (p_cats_of [[0, 0, 0, 0]])
     [1, 0, 1, 0] 1 = Inl IndexError"
  by (simp add: influence_def pmf_def matching_rows_def np_unique_def p_cats_of_def)

text \<open>
  Claim C10. For a held-out row different from the query vector the result is 0 whatever
  the table is, so \<open>pmf\<close> and the division are not evaluated. A successful lookup in
  the table of a training fold returns at least \<open>1 / len(X_train)\<close>, which is positive,
  so the division never divides by zero; the only fault of the loop body is the
  IndexError of a lookup that finds no row, for a held-out row equal to a query vector
  that the training fold lacks.
\<close>

theorem division_guarded:
  "(x_tilde \<noteq> cond_X \<longrightarrow> influence reg cond_X cats p_cats x_tilde y_tilde = Inr 0)
   \<and> (pmf x (fst (np_unique X_train)) (p_cats_of X_train) = Inr q \<longrightarrow>
        1 / real (length X_train) \<le> q \<and> 0 < q)
   \<and> influence reg cond_X (fst (np_unique X_train)) (p_cats_of X_train) x_tilde y_tilde
        \<noteq> Inl NonFinite
   \<and> (influence reg cond_X (fst (np_unique X_train)) (p_cats_of X_train) x_tilde y_tilde = Inl e
        \<longrightarrow> e = IndexError \<and> x_tilde = cond_X \<and> cond_X \<notin> set X_train)"
proof -
  have "1 / real (length X_train) \<le> q \<and> 0 < q"
    if q: "pmf x (fst (np_unique X_train)) (p_cats_of X_train) = Inr q"
  proof (cases "x \<in> set X_train")
    case True
    then have "count_list X_train x \<noteq> 0" and n: "0 < length X_train"
      by (auto simp: count_list_0_iff)
    then have c: "1 \<le> count_list X_train x" by simp
    from q True have "q = real (count_list X_train x) / real (length X_train)"
      by (simp add: pmf_table_present)
    with c n show ?thesis by (simp add: divide_right_mono)
  next
    case False
    with q show ?thesis by (simp add: pmf_table_absent)
  qed
  then show ?thesis
    by (simp add: influence_other_row influence_table)
qed

theorem division_guarded_witness:
  "[0, 1] \<noteq> [1, 0 :: real]
   \<and> influence (\<lambda>x. 1) [1, 0] [] [] [0, 1] 5 = Inr 0
   \<and> pmf [1, 0] (fst (np_unique [[1, 0], [0, 1], [1, 0]])) (p_cats_of [[1, 0], [0, 1], [1, 0]])
        = Inr (2 / 3)
   \<and> 1 / real (length [[1, 0], [0, 1], [1, 0 :: real]]) \<le> (2 / 3 :: real)
   \<and> influence (\<lambda>x. 1) [1, 0] (fst (np_unique [[0, 1]])) (p_cats_of [[0, 1]]) [1, 0] 5
        = Inl IndexError
   \<and> [1, 0] \<notin> set [[0, 1 :: real]]"
proof -
  have p: "pmf [1, 0] (fst (np_unique [[1, 0], [0, 1], [1, 0]])) (p_cats_of [[1, 0], [0, 1], [1, 0]])
        = Inr (2 / 3)"
    by (simp add: pmf_def matching_rows_def np_unique_def p_cats_of_def)
  have e: "influence (\<lambda>x. 1) [1, 0] (fst (np_unique [[0, 1]])) (p_cats_of [[0, 1]]) [1, 0] 5
        = Inl IndexError"
    by (simp add: influence_def pmf_def matching_rows_def np_unique_def p_cats_of_def)
  show ?thesis
    using division_guarded [of "[0, 1]" "[1, 0]" "\<lambda>x. 1" "[]" "[]" 5 "[1, 0]"
        "[[1, 0], [0, 1], [1, 0]]" "2 / 3" IndexError]
      division_guarded [of "[1, 0]" "[1, 0]" "\<lambda>x. 1" "[]" "[]" 5 "[1, 0]"
        "[[0, 1]]" "2 / 3" IndexError] p e
    by simp
qed

section \<open>The k-fold run\<close>

lemma all_phi_length:
  "all_phi reg c cats p xs ys = Inr vs \<Longrightarrow> length vs = length xs"
proof (induction reg c cats p xs ys arbitrary: vs rule: all_phi.induct)
  case (3 reg c cats p x xs y ys)
  then show ?case by (auto simp: bind_fault_eq_Inr)
qed simp_all

lemma take_idx_length: "take_idx xs idx = Inr zs \<Longrightarrow> length zs = length idx"
  by (auto simp: take_idx_def split: if_splits)

lemma fold_body_length:
  assumes "fold_body fit c X y s = Inr (psi, pv)"
  shows "length pv = length (snd s)"
  using assms 
  by (auto simp: fold_body_def bind_fault_eq_Inr Let_def dest!: all_phi_length take_idx_length)

lemma kfold_loop_Inr:
  "kfold_loop fit c X y ss psis phis = Inr (P, Q) \<Longrightarrow>
     (\<forall>s\<in>set ss. \<exists>r. fold_body fit c X y s = Inr r) \<and>
     P = psis @ map (\<lambda>s. fst (projr (fold_body fit c X y s))) ss \<and>
     Q = (if ss = [] then phis else snd (projr (fold_body fit c X y (last ss))))"
proof (induction ss arbitrary: psis phis)
  case Nil
  then show ?case by simp
next
  case (Cons s ss)
  from Cons.prems obtain psi pv where
    s: "fold_body fit c X y s = Inr (psi, pv)"
    and rest: "kfold_loop fit c X y ss (psis @ [psi]) pv = Inr (P, Q)"
    by (auto simp: bind_fault_eq_Inr)
  from Cons.IH [OF rest] s show ?case by auto
qed

lemma kfold_loop_ok:
  "(\<forall>s\<in>set ss. \<exists>r. fold_body fit c X y s = Inr r) \<Longrightarrow>
   kfold_loop fit c X y ss psis phis =
     Inr (psis @ map (\<lambda>s. fst (projr (fold_body fit c X y s))) ss,
          if ss = [] then phis else snd (projr (fold_body fit c X y (last ss))))"
proof (induction ss arbitrary: psis phis)
  case Nil
  then show ?case by simp
next
  case (Cons s ss)
  then obtain psi pv where s: "fold_body fit c X y s = Inr (psi, pv)" by fastforce
  with Cons show ?case by (auto simp: bind_fault_eq_Inr)
qed

lemma np_mean_perm:
  "mset xs = mset ys \<Longrightarrow> np_mean xs = np_mean ys"
proof -
  assume a: "mset xs = mset ys"
  then have "sum_list xs = sum_list ys" by (metis sum_mset_sum_list)
  moreover from a have "length xs = length ys" by (metis size_mset)
  ultimately show ?thesis by (auto simp: np_mean_def)
qed

text \<open>
  Claim C9. Processing the same folds in another order leaves the plug-in estimate
  unchanged: when the run over \<open>splits\<close> returns \<open>psi\<close>, the run over any permutation
  of \<open>splits\<close> returns too, with the same \<open>psi\<close>. (Every held-out fold is non-empty,
  as the folds of a k-fold split with \<open>k \<le> N\<close> are.)
\<close>

theorem plug_in_order_invariant:
  assumes perm: "mset splits' = mset splits"
    and nonempty: "\<forall>s\<in>set splits. snd s \<noteq> []"
    and run: "kfold_estimate fit c X y splits = Inr (psi, upd)"
  shows "\<exists>upd'. kfold_estimate fit c X y splits' = Inr (psi, upd')"
proof -
  let ?f = "\<lambda>s. fst (projr (fold_body fit c X y s))"
  from run have ne: "splits \<noteq> []" by (auto simp: kfold_estimate_def split: if_splits)
  from run ne obtain P Q phi where
    loop: "kfold_loop fit c X y splits [] [] = Inr (P, Q)"
    and "np_mean Q = Inr phi" and psi: "np_mean P = Inr psi"
    by (auto simp: kfold_estimate_def bind_fault_eq_Inr)
  from kfold_loop_Inr [OF loop] have
    ok: "\<forall>s\<in>set splits. \<exists>r. fold_body fit c X y s = Inr r" and P: "P = map ?f splits"
    by auto
  from perm have sets: "set splits' = set splits" by (metis set_mset_mset)
  from perm ne have ne': "splits' \<noteq> []" by auto
  from ok sets have ok': "\<forall>s\<in>set splits'. \<exists>r. fold_body fit c X y s = Inr r" by simp
  let ?Q' = "snd (projr (fold_body fit c X y (last splits')))"
  have loop': "kfold_loop fit c X y splits' [] [] = Inr (map ?f splits', ?Q')"
    using kfold_loop_ok [OF ok', of "[]" "[]"] ne' by simp
  have last_in: "last splits' \<in> set splits" using ne' sets by (metis last_in_set)
  with ok obtain p q where lb: "fold_body fit c X y (last splits') = Inr (p, q)" by fastforce
  have "length ?Q' = length (snd (last splits'))"
    using fold_body_length [OF lb] by (simp add: lb)
  moreover have "snd (last splits') \<noteq> []"
    using nonempty last_in by blast
  ultimately have "?Q' \<noteq> []" by (metis length_0_conv)
  then obtain phi' where phi': "np_mean ?Q' = Inr phi'" by (auto simp: np_mean_def)
  have "mset (map ?f splits') = mset (map ?f splits)" using perm by simp
  then have "np_mean (map ?f splits') = Inr psi" using psi P np_mean_perm by metis
  with loop' phi' ne' show ?thesis by (simp add: kfold_estimate_def)
qed

lemma kfold_estimate_last_fold:
  assumes "kfold_estimate fit c X y (splits @ [s]) = Inr (psi, upd)"
  shows "\<exists>p pv phi. fold_body fit c X y s = Inr (p, pv) \<and> np_mean pv = Inr phi \<and> upd = psi + phi"
proof -
  from assms obtain P Q phi where
    loop: "kfold_loop fit c X y (splits @ [s]) [] [] = Inr (P, Q)"
    and phi: "np_mean Q = Inr phi" and psi: "np_mean P = Inr psi" and upd: "upd = psi + phi"
    by (auto simp: kfold_estimate_def bind_fault_eq_Inr)
  from kfold_loop_Inr [OF loop] obtain r where
    "fold_body fit c X y s = Inr r" "Q = snd (projr (fold_body fit c X y s))" by auto
  with phi upd show ?thesis by (cases r) auto
qed


theorem plug_in_order_invariant_witness:
  "mset [([0, 1], [2, 3]), ([2, 3], [0, 1 :: nat])] = mset [([2, 3], [0, 1]), ([0, 1], [2, 3])]
   \<and> kfold_estimate (\<lambda>X_train y_train x. sum_list y_train / real (length y_train)) [1, 0, 1, 0]
        [[1, 0, 1, 0], [0, 0, 0, 0], [1, 0, 1, 0], [0, 0, 0, 0]] [5, 0, 1, 0]
        [([2, 3], [0, 1]), ([0, 1], [2, 3])] = Inr (3 / 2, 0)
   \<and> (\<exists>upd'. kfold_estimate (\<lambda>X_train y_train x. sum_list y_train / real (length y_train))
        [1, 0, 1, 0] [[1, 0, 1, 0], [0, 0, 0, 0], [1, 0, 1, 0], [0, 0, 0, 0]] [5, 0, 1, 0]
        [([0, 1], [2, 3]), ([2, 3], [0, 1])] = Inr (3 / 2, upd'))"
proof -
  have run: "kfold_estimate (\<lambda>X_train y_train x. sum_list y_train / real (length y_train))
        [1, 0, 1, 0] [[1, 0, 1, 0], [0, 0, 0, 0], [1, 0, 1, 0], [0, 0, 0, 0]] [5, 0, 1, 0]
        [([2, 3], [0, 1]), ([0, 1], [2, 3])] = Inr (3 / 2, 0)"
    by (simp add: kfold_estimate_def fold_body_def take_idx_def Let_def influence_def pmf_def
        matching_rows_def p_cats_of_def np_unique_def np_mean_def)
  have perm: "mset [([0, 1], [2, 3]), ([2, 3], [0, 1 :: nat])]
      = mset [([2, 3], [0, 1]), ([0, 1], [2, 3])]"
    by simp
  have nonempty: "\<forall>s\<in>set [([2, 3], [0, 1 :: nat]), ([0, 1], [2, 3 :: nat])]. snd s \<noteq> []"
    by simp
  from plug_in_order_invariant [OF perm nonempty run] perm run show ?thesis by blast
qed

text \<open>
  Claim C1, at a concrete run of the k-fold notebook. Four observations, two folds (the
  split of \<open>KFold\<close> for the index order \<open>0, 1, 2, 3\<close>), the query vector
  \<open>[1, 0, 1, 0]\<close>, and a fit that predicts the mean of the training outcomes. The
  influence values of the first fold are \<open>[9, 0]\<close> with mean \<open>9/2\<close>, those of the second
  \<open>[-3, 0]\<close> with mean \<open>-3/2\<close>; the mean of the two fold means is \<open>3/2\<close>. The run
  returns the plug-in estimate \<open>3/2\<close> and the corrected estimate \<open>3/2 + (-3/2)\<close>: the
  correction is the mean of the last fold alone.
\<close>

theorem kfold_correction_uses_last_fold:
  "KFold_split 2 4 [0, 1, 2, 3] = Inr [([2, 3], [0, 1]), ([0, 1], [2, 3])]
   \<and> fold_body (\<lambda>X_train y_train x. sum_list y_train / real (length y_train)) [1, 0, 1, 0]
        [[1, 0, 1, 0], [0, 0, 0, 0], [1, 0, 1, 0], [0, 0, 0, 0]] [5, 0, 1, 0] ([2, 3], [0, 1])
       = Inr (1 / 2, [9, 0])
   \<and> fold_body (\<lambda>X_train y_train x. sum_list y_train / real (length y_train)) [1, 0, 1, 0]
        [[1, 0, 1, 0], [0, 0, 0, 0], [1, 0, 1, 0], [0, 0, 0, 0]] [5, 0, 1, 0] ([0, 1], [2, 3])
       = Inr (5 / 2, [- 3, 0])
   \<and> np_mean [9, 0] = Inr (9 / 2) \<and> np_mean [- 3, 0] = Inr (- 3 / 2)
   \<and> np_mean [9 / 2, - 3 / 2] = Inr (3 / 2)
   \<and> kfold_estimate (\<lambda>X_train y_train x. sum_list y_train / real (length y_train)) [1, 0, 1, 0]
        [[1, 0, 1, 0], [0, 0, 0, 0], [1, 0, 1, 0], [0, 0, 0, 0]] [5, 0, 1, 0]
        [([2, 3], [0, 1]), ([0, 1], [2, 3])] = Inr (3 / 2, 3 / 2 + - 3 / 2)"
proof -
  have "KFold_split 2 4 [0, 1, 2, 3] = Inr [([2, 3], [0, 1]), ([0, 1], [2, 3])]"
    by (simp add: KFold_split_def fold_sizes_def upt_rec)
  then show ?thesis
    by (simp add: kfold_estimate_def fold_body_def take_idx_def Let_def influence_def pmf_def
        matching_rows_def p_cats_of_def np_unique_def np_mean_def)
qed

section \<open>The tutorial averages both folds\<close>

text \<open>
  In the tutorial the two arrays of influence values are added and halved before the
  mean, so for halves of equal length \<open>phi_est\<close> is the mean of the two fold means.
\<close>

lemma sum_list_halved_pairs:
  "length a = length b \<Longrightarrow>
     sum_list (map (\<lambda>v. v / 2) (map2 (+) a b)) = (sum_list a + sum_list b) / (2 :: real)"
  by (induction a b rule: list_induct2) (simp_all add: field_simps)

lemma tutorial_phi_est_both_folds:
  assumes "length all_phi_ds1s = length all_phi_ds2s" and "all_phi_ds1s \<noteq> []"
    and "np_mean all_phi_ds1s = Inr m1" and "np_mean all_phi_ds2s = Inr m2"
  shows "bind_fault (np_add all_phi_ds1s all_phi_ds2s) (\<lambda>both. np_mean (map (\<lambda>v. v / 2) both))
           = Inr ((m1 + m2) / 2)"
proof -
  from assms(1,2) have ne: "all_phi_ds2s \<noteq> []" by auto
  from assms(3) assms(2) have m1: "m1 = sum_list all_phi_ds1s / real (length all_phi_ds1s)"
    by (simp add: np_mean_def)
  from assms(4) ne have m2: "m2 = sum_list all_phi_ds2s / real (length all_phi_ds1s)"
    by (simp add: np_mean_def assms(1))
  have both: "np_add all_phi_ds1s all_phi_ds2s = Inr (map2 (+) all_phi_ds1s all_phi_ds2s)"
    using assms(1) by (simp add: np_add_def)
  have "np_mean (map (\<lambda>v. v / 2) (map2 (+) all_phi_ds1s all_phi_ds2s))
      = Inr (sum_list (map (\<lambda>v. v / 2) (map2 (+) all_phi_ds1s all_phi_ds2s))
             / real (length all_phi_ds1s))"
    using assms(1,2) ne by (simp add: np_mean_def)
  also have "\<dots> = Inr ((sum_list all_phi_ds1s + sum_list all_phi_ds2s) / 2
             / real (length all_phi_ds1s))"
    by (simp only: sum_list_halved_pairs [OF assms(1)])
  also have "\<dots> = Inr ((m1 + m2) / 2)"
    by (simp add: m1 m2 add_divide_distrib)
  finally show ?thesis by (simp add: both)
qed

section \<open>The splits are partitions\<close>

lemma length_fold_sizes: "length (fold_sizes n k) = k"
  by (simp add: fold_sizes_def)

lemma sum_fold_sizes:
  assumes "0 < k"
  shows "sum_list (fold_sizes n k) = n"
proof -
  have "sum_list (fold_sizes n k)
      = (\<Sum>j = 0..<k. n div k + (if j < n mod k then 1 else 0))"
    by (simp add: fold_sizes_def interv_sum_list_conv_sum_set_nat)
  also have "\<dots> = k * (n div k) + (\<Sum>j = 0..<k. if j < n mod k then 1 else 0)"
    by (simp add: sum.distrib)
  also have "(\<Sum>j = 0..<k. if j < n mod k then 1 else 0) = card {j \<in> {0..<k}. j < n mod k}"
    by (simp add: sum.If_cases Int_def)
  also have "{j \<in> {0..<k}. j < n mod k} = {0..<n mod k}"
  proof -
    have "n mod k < k" using assms by simp
    then show ?thesis by auto
  qed
  finally show ?thesis by simp
qed

lemma fold_sizes_balanced:
  "s \<in> set (fold_sizes n k) \<Longrightarrow> n div k \<le> s \<and> s \<le> n div k + 1"
  by (auto simp: fold_sizes_def)

lemma length_slices: "length (slices xs ns) = length ns"
  by (induction ns arbitrary: xs) simp_all

lemma concat_slices: "sum_list ns = length xs \<Longrightarrow> concat (slices xs ns) = xs"
  by (induction ns arbitrary: xs) simp_all

lemma map_length_slices:
  "sum_list ns \<le> length xs \<Longrightarrow> map length (slices xs ns) = ns"
  by (induction ns arbitrary: xs) simp_all

lemma set_slices_subset: "t \<in> set (slices xs ns) \<Longrightarrow> set t \<subseteq> set xs"
proof (induction ns arbitrary: xs)
  case Nil
  then show ?case by simp
next
  case (Cons n ns)
  then show ?case
    by (auto dest: in_set_takeD in_set_dropD)
qed

lemma distinct_slices: "distinct xs \<Longrightarrow> t \<in> set (slices xs ns) \<Longrightarrow> distinct t"
proof (induction ns arbitrary: xs)
  case Nil
  then show ?case by simp
next
  case (Cons n ns)
  from Cons.prems(2) have "t = take n xs \<or> t \<in> set (slices (drop n xs) ns)" by simp
  then show ?case
  proof
    assume "t = take n xs"
    with Cons.prems(1) show ?thesis by simp
  next
    assume "t \<in> set (slices (drop n xs) ns)"
    moreover from Cons.prems(1) have "distinct (drop n xs)" by simp
    ultimately show ?thesis by (rule Cons.IH [rotated])
  qed
qed

lemma slices_disjoint:
  assumes "distinct xs" and "i < j" and "j < length ns"
  shows "set (slices xs ns ! i) \<inter> set (slices xs ns ! j) = {}"
  using assms
proof (induction ns arbitrary: xs i j)
  case Nil
  then show ?case by simp
next
  case (Cons n ns)
  from Cons.prems obtain j' where j: "j = Suc j'" "j' < length ns"
    by (cases j) auto
  show ?case
  proof (cases i)
    case 0
    have "slices (drop n xs) ns ! j' \<in> set (slices (drop n xs) ns)"
      using j by (simp add: length_slices)
    then have "set (slices (drop n xs) ns ! j') \<subseteq> set (drop n xs)"
      by (rule set_slices_subset)
    moreover have "set (take n xs) \<inter> set (drop n xs) = {}"
      using Cons.prems(1) by (simp add: set_take_disj_set_drop_if_distinct)
    ultimately show ?thesis using 0 j by auto
  next
    case (Suc i')
    with Cons.prems j have "i' < j'" by simp
    from Cons.IH [OF _ this j(2), of "drop n xs"] Cons.prems(1) Suc j show ?thesis by simp
  qed
qed


lemma sorted_fold_set:
  "set t \<subseteq> {0..<N} \<Longrightarrow> set (filter (\<lambda>i. i \<in> set t) [0..<N]) = set t"
  by auto

lemma sorted_fold_length:
  assumes "distinct t" and "set t \<subseteq> {0..<N}"
  shows "length (filter (\<lambda>i. i \<in> set t) [0..<N]) = length t"
proof -
  have "length (filter (\<lambda>i. i \<in> set t) [0..<N]) = card ({i. i \<in> set t} \<inter> set [0..<N])"
    by (rule distinct_length_filter) simp
  also have "{i. i \<in> set t} \<inter> set [0..<N] = set t"
    using assms(2) by auto
  finally show ?thesis using assms(1) by (simp add: distinct_card)
qed

lemma half_split_parts:
  "fst (half_split xs) @ snd (half_split xs) = xs
   \<and> length (fst (half_split xs)) = length xs div 2
   \<and> length (snd (half_split xs)) = length xs - length xs div 2"
  by (simp add: half_split_def)

lemma half_split_indices:
  "set (fst (half_split [0..<N])) \<inter> set (snd (half_split [0..<N])) = {}
   \<and> set (fst (half_split [0..<N])) \<union> set (snd (half_split [0..<N])) = {0..<N}"
proof -
  have "set (take (N div 2) [0..<N]) \<inter> set (drop (N div 2) [0..<N]) = {}"
    by (rule set_take_disj_set_drop_if_distinct) simp_all
  moreover have "set (take (N div 2) [0..<N]) \<union> set (drop (N div 2) [0..<N]) = set [0..<N]"
    by (metis append_take_drop_id set_append)
  ultimately show ?thesis by (simp add: half_split_def)
qed

text \<open>
  Claim C6. For \<open>2 \<le> k \<le> N\<close> and any shuffled order of the indices \<open>0, ..., N - 1\<close>, the
  k-fold split returns \<open>k\<close> folds whose held-out index sets are pairwise disjoint, cover
  all indices, have sizes that sum to \<open>N\<close> and differ by at most one; each training set is
  the complement of its held-out set. The tutorial's two halves are disjoint index ranges
  that cover all indices, concatenate to the sample, and differ in length by at most one.
\<close>

theorem folds_partition_sample:
  assumes k: "2 \<le> k" "k \<le> N" and perm: "mset indices = mset [0..<N]"
  shows "(\<exists>splits. KFold_split k N indices = Inr splits
      \<and> length splits = k
      \<and> (\<forall>i<k. \<forall>j<k. i \<noteq> j \<longrightarrow> set (snd (splits ! i)) \<inter> set (snd (splits ! j)) = {})
      \<and> (\<Union>s\<in>set splits. set (snd s)) = {0..<N}
      \<and> sum_list (map (\<lambda>s. length (snd s)) splits) = N
      \<and> (\<forall>i<k. \<forall>j<k. length (snd (splits ! i)) \<le> length (snd (splits ! j)) + 1)
      \<and> (\<forall>s\<in>set splits. set (fst s) = {0..<N} - set (snd s)))
    \<and> set (fst (half_split [0..<N])) \<inter> set (snd (half_split [0..<N])) = {}
    \<and> set (fst (half_split [0..<N])) \<union> set (snd (half_split [0..<N])) = {0..<N}
    \<and> fst (half_split X) @ snd (half_split X) = X
    \<and> length (fst (half_split X)) + length (snd (half_split X)) = length X
    \<and> length (fst (half_split X)) \<le> length (snd (half_split X))
    \<and> length (snd (half_split X)) \<le> length (fst (half_split X)) + 1"
proof -
  let ?ts = "slices indices (fold_sizes N k)"
  let ?emit = "\<lambda>t. (filter (\<lambda>i. i \<notin> set t) [0..<N], filter (\<lambda>i. i \<in> set t) [0..<N])"
  let ?splits = "map ?emit ?ts"
  from perm have dist: "distinct indices"
    by (metis distinct_upt mset_eq_imp_distinct_iff)
  from perm have set_idx: "set indices = {0..<N}"
    by (metis atLeastLessThan_upt mset_eq_setD)
  from perm have len_idx: "length indices = N"
    by (metis length_upt mset_eq_length minus_nat.diff_0)
  from k have kpos: "0 < k" by simp
  have sum_sizes: "sum_list (fold_sizes N k) = length indices"
    using sum_fold_sizes [OF kpos] len_idx by simp
  have len_ts: "length ?ts = k"
    by (simp add: length_slices length_fold_sizes)
  have lens: "map length ?ts = fold_sizes N k"
    using sum_sizes by (simp add: map_length_slices)
  have cat: "concat ?ts = indices"
    using sum_sizes by (rule concat_slices)
  have sub: "set t \<subseteq> {0..<N}" if "t \<in> set ?ts" for t
    using set_slices_subset [OF that] set_idx by simp
  have dt: "distinct t" if "t \<in> set ?ts" for t
    using distinct_slices [OF dist that] .
  have nth_in: "?ts ! i \<in> set ?ts" if "i < k" for i
    using that len_ts by simp
  have test_set: "set (snd (?splits ! i)) = set (?ts ! i)" if "i < k" for i
    using that len_ts sorted_fold_set [OF sub [OF nth_in [OF that]]] by simp
  have test_len: "length (snd (?splits ! i)) = length (?ts ! i)" if "i < k" for i
    using that len_ts sorted_fold_length [OF dt [OF nth_in [OF that]] sub [OF nth_in [OF that]]]
    by simp
  have run: "KFold_split k N indices = Inr ?splits"
    using k by (simp add: KFold_split_def)
  have len: "length ?splits = k"
    using len_ts by simp
  have disj: "set (snd (?splits ! i)) \<inter> set (snd (?splits ! j)) = {}"
    if "i < k" "j < k" "i \<noteq> j" for i j
  proof -
    have "set (?ts ! i) \<inter> set (?ts ! j) = {}"
    proof (cases "i < j")
      case True
      then show ?thesis
        using slices_disjoint [OF dist True, of "fold_sizes N k"] that
        by (simp add: length_fold_sizes)
    next
      case False
      with that have "j < i" by simp
      then have "set (?ts ! j) \<inter> set (?ts ! i) = {}"
        using slices_disjoint [OF dist \<open>j < i\<close>, of "fold_sizes N k"] that
        by (simp add: length_fold_sizes)
      then show ?thesis by blast
    qed
    with that show ?thesis by (simp add: test_set)
  qed
  have cover: "(\<Union>s\<in>set ?splits. set (snd s)) = {0..<N}"
  proof -
    have "(\<Union>s\<in>set ?splits. set (snd s)) = (\<Union>t\<in>set ?ts. set (filter (\<lambda>i. i \<in> set t) [0..<N]))"
      by simp
    also have "\<dots> = (\<Union>t\<in>set ?ts. set t)"
      using sub by (intro SUP_cong refl sorted_fold_set)
    also have "\<dots> = set (concat ?ts)" by simp
    finally show ?thesis by (simp add: cat set_idx)
  qed
  have eq_len: "map (\<lambda>s. length (snd s)) ?splits = fold_sizes N k"
  proof -
    have "map (\<lambda>s. length (snd s)) ?splits = map length ?ts"
      using dt sub by (simp add: sorted_fold_length)
    with lens show ?thesis by simp
  qed
  have total: "sum_list (map (\<lambda>s. length (snd s)) ?splits) = N"
    using eq_len sum_sizes len_idx by simp
  have size_in: "length (snd (?splits ! i)) \<in> set (fold_sizes N k)" if "i < k" for i
  proof -
    have "length (snd (?splits ! i)) = map (\<lambda>s. length (snd s)) ?splits ! i"
      using that len by simp
    also have "\<dots> = fold_sizes N k ! i" by (simp only: eq_len)
    finally show ?thesis using that by (simp add: length_fold_sizes)
  qed
  have balanced: "length (snd (?splits ! i)) \<le> length (snd (?splits ! j)) + 1"
    if "i < k" "j < k" for i j
    using fold_sizes_balanced [OF size_in [OF that(1)]] fold_sizes_balanced [OF size_in [OF that(2)]]
    by linarith
  have train: "set (fst s) = {0..<N} - set (snd s)" if "s \<in> set ?splits" for s
    using that by auto
  have kf: "\<exists>splits. KFold_split k N indices = Inr splits
      \<and> length splits = k
      \<and> (\<forall>i<k. \<forall>j<k. i \<noteq> j \<longrightarrow> set (snd (splits ! i)) \<inter> set (snd (splits ! j)) = {})
      \<and> (\<Union>s\<in>set splits. set (snd s)) = {0..<N}
      \<and> sum_list (map (\<lambda>s. length (snd s)) splits) = N
      \<and> (\<forall>i<k. \<forall>j<k. length (snd (splits ! i)) \<le> length (snd (splits ! j)) + 1)
      \<and> (\<forall>s\<in>set splits. set (fst s) = {0..<N} - set (snd s))"
    using run len disj cover total balanced train by blast
  have half: "fst (half_split X) @ snd (half_split X) = X
    \<and> length (fst (half_split X)) + length (snd (half_split X)) = length X
    \<and> length (fst (half_split X)) \<le> length (snd (half_split X))
    \<and> length (snd (half_split X)) \<le> length (fst (half_split X)) + 1"
    by (simp add: half_split_def) linarith
  from kf half half_split_indices [of N] show ?thesis by blast
qed


theorem folds_partition_sample_witness:
  "(2 :: nat) \<le> 2 \<and> (2 :: nat) \<le> 5 \<and> mset [3, 0, 4, 1, 2] = mset [0..<5]
   \<and> KFold_split 2 5 [3, 0, 4, 1, 2] = Inr [([1, 2], [0, 3, 4]), ([0, 3, 4], [1, 2])]
   \<and> (\<exists>splits. KFold_split 2 5 [3, 0, 4, 1, 2] = Inr splits \<and> length splits = 2
        \<and> sum_list (map (\<lambda>s. length (snd s)) splits) = 5)
   \<and> half_split [0..<5] = ([0, 1], [2, 3, 4])
   \<and> fst (half_split [10, 20, 30 :: real]) @ snd (half_split [10, 20, 30]) = [10, 20, 30]"
proof -
  have upt5: "[0..<5] = [0, 1, 2, 3, 4]"
    by code_simp
  have perm: "mset [3, 0, 4, 1, 2] = mset [0..<5]"
    by (simp add: upt5)
  have run: "KFold_split 2 5 [3, 0, 4, 1, 2] = Inr [([1, 2], [0, 3, 4]), ([0, 3, 4], [1, 2])]"
    by (simp add: KFold_split_def fold_sizes_def upt_rec)
  have half: "half_split [0..<5] = ([0, 1], [2, 3, 4])"
    by (simp add: half_split_def upt_rec)
  have "(2 :: nat) \<le> 2" and "(2 :: nat) \<le> 5" by simp_all
  from folds_partition_sample [OF this perm, of "[10, 20, 30]"] perm run half
  show ?thesis by auto
qed

section \<open>The entropy notebook: derivatives and corrections\<close>

lemma phi_pr_derivative: "(phi has_real_derivative phi_pr b) (at b)"
proof -
  have "phi = (\<lambda>b. b)" by (rule ext) (simp add: phi_def)
  moreover have "((\<lambda>b::real. b) has_real_derivative 1) (at b)" by (rule DERIV_ident)
  ultimately show ?thesis by (simp add: phi_pr_def)
qed

lemma nu_pr_derivative:
  assumes "0 < a" and "0 < dx"
  shows "((\<lambda>t. projr (nu t dx)) has_real_derivative projr (nu_pr a dx)) (at a)"
proof -
  have d: "((\<lambda>t. - t * ln (t / dx)) has_real_derivative - (ln (a / dx) + 1)) (at a)"
    using assms by (auto intro!: derivative_eq_intros simp: field_simps)
  have ev: "\<forall>\<^sub>F t in nhds a. projr (nu t dx) = - t * ln (t / dx)"
  proof -
    have "\<forall>\<^sub>F t in nhds a. 0 < t"
      using assms(1) by (intro order_tendstoD(1) [OF tendsto_ident_at] eventually_nhds_in_open [of "{0<..}", simplified]) auto
    then show ?thesis
      by eventually_elim (use assms(2) in \<open>simp add: nu_def\<close>)
  qed
  have "((\<lambda>t. projr (nu t dx)) has_real_derivative - (ln (a / dx) + 1)) (at a)"
    using d ev by (subst DERIV_cong_ev [OF refl ev refl]) 
  then show ?thesis using assms by (simp add: nu_pr_def)
qed


lemma map_fault_Inr:
  "list_all (\<lambda>x. \<exists>v. f x = Inr v) xs \<Longrightarrow> map_fault f xs = Inr (map (\<lambda>x. projr (f x)) xs)"
  by (induction xs) auto

lemma map_fault_nu:
  assumes "0 < dx" and "list_all (\<lambda>a. 0 < a) p"
  shows "map_fault (\<lambda>a. nu a dx) p = Inr (map (\<lambda>a. - a * ln (a / dx)) p)"
  using assms(2) by (induction p) (use assms(1) in \<open>simp_all add: nu_def\<close>)

lemma map_fault_nu_pr:
  assumes "0 < dx" and "list_all (\<lambda>a. 0 < a) p"
  shows "map_fault (\<lambda>a. nu_pr a dx) p = Inr (map (\<lambda>a. - (ln (a / dx) + 1)) p)"
  using assms(2) by (induction p) (use assms(1) in \<open>simp_all add: nu_pr_def\<close>)

lemma correction_value:
  assumes "0 < dx" and "list_all (\<lambda>a. 0 < a) p_r" and "list_all (\<lambda>a. 0 < a) p_xi"
    and "p_xi \<noteq> []"
  shows "factor_A p_r dx = Inr (phi_pr (\<Sum>a\<leftarrow>p_r. - a * ln (a / dx)))"
    and "factor_B p_xi dx = Inr ((\<Sum>a\<leftarrow>p_xi. - (ln (a / dx) + 1)) / real (length p_xi))"
    and "factor_C p_r dx = Inr (\<Sum>a\<leftarrow>p_r. a * - (ln (a / dx) + 1))"
    and "correction p_r p_xi dx =
           Inr (phi_pr (\<Sum>a\<leftarrow>p_r. - a * ln (a / dx))
                * ((\<Sum>a\<leftarrow>p_xi. - (ln (a / dx) + 1)) / real (length p_xi)
                   - (\<Sum>a\<leftarrow>p_r. a * - (ln (a / dx) + 1))))"
proof -
  have m: "map2 (*) p_r (map (\<lambda>a. - (ln (a / dx) + 1)) p_r) = map (\<lambda>a. a * - (ln (a / dx) + 1)) p_r"
    by (induction p_r) simp_all
  show A: "factor_A p_r dx = Inr (phi_pr (\<Sum>a\<leftarrow>p_r. - a * ln (a / dx)))"
    by (simp add: factor_A_def map_fault_nu [OF assms(1,2)])
  show B: "factor_B p_xi dx = Inr ((\<Sum>a\<leftarrow>p_xi. - (ln (a / dx) + 1)) / real (length p_xi))"
    using assms(4)
    by (simp add: factor_B_def map_fault_nu [OF assms(1,3)] map_fault_nu_pr [OF assms(1,3)]
        np_mean_def)
  have "factor_C p_r dx = Inr (sum_list (map2 (*) p_r (map (\<lambda>a. - (ln (a / dx) + 1)) p_r)))"
    by (simp only: factor_C_def map_fault_nu [OF assms(1,2)] map_fault_nu_pr [OF assms(1,2)]
        bind_fault_Inr)
  then show C: "factor_C p_r dx = Inr (\<Sum>a\<leftarrow>p_r. a * - (ln (a / dx) + 1))"
    by (simp only: m)
  show "correction p_r p_xi dx =
           Inr (phi_pr (\<Sum>a\<leftarrow>p_r. - a * ln (a / dx))
                * ((\<Sum>a\<leftarrow>p_xi. - (ln (a / dx) + 1)) / real (length p_xi)
                   - (\<Sum>a\<leftarrow>p_r. a * - (ln (a / dx) + 1))))"
    by (simp add: correction_def A B C)
qed

lemma est_ds2_is_est_ds1: "est_ds2 fit x r dx = est_ds1 fit x r dx"
  by (simp add: est_ds2_def est_ds1_def p_r_ds2_def p_r_ds1_def)

text \<open>
  Claim C3, at a concrete run of the entropy notebook. The sample is \<open>[0, 1]\<close>, so
  \<open>x1 = [0]\<close> and \<open>x2 = [1]\<close>; the grid is the single point 0 and \<open>dx = 1\<close>; the
  density estimator gives density 1 at a point of its sample and 1/2 elsewhere. The
  plug-in estimate of the second split is the entropy of the density fitted on the first
  split, 0; the density fitted on the second split has entropy \<open>ln 2 / 2\<close>.
\<close>

theorem est_ds2_from_first_split:
  "est_ds2 (\<lambda>xs t. if t \<in> set xs then 1 else 1 / 2) [0, 1] [0] 1
      = entropy (map (\<lambda>t. kde_ds1 (\<lambda>xs t. if t \<in> set xs then 1 else 1 / 2) [0, 1] t * 1) [0]) 1
   \<and> est_ds2 (\<lambda>xs t. if t \<in> set xs then 1 else 1 / 2) [0, 1] [0] 1 = Inr 0
   \<and> entropy (map (\<lambda>t. kde_ds2 (\<lambda>xs t. if t \<in> set xs then 1 else 1 / 2) [0, 1] t * 1) [0]) 1
      = Inr (ln 2 / 2)
   \<and> ln 2 / 2 \<noteq> (0 :: real)"
  by (simp add: est_ds2_def p_r_ds2_def kde_ds1_def kde_ds2_def half_split_def entropy_def
      nu_def phi_def ln_div)

text \<open>
  Claim C5, at the same run. The correction of the first split is \<open>A * (B - C)\<close> with
  all three factors from the density of the first split. The correction of the second
  split takes \<open>B\<close> from the density of the second split and \<open>A\<close> and \<open>C\<close> from
  \<open>p_r_ds2\<close>, which holds the density of the first split: it is \<open>ln 2\<close>, where the three
  factors from the density of the second split give \<open>(ln 2 - 1) / 2\<close>.
\<close>

theorem psi_ds2_mixes_splits:
  "psi_ds1 (\<lambda>xs t. if t \<in> set xs then 1 else 1 / 2) [0, 1] [0] 1
      = correction (map (\<lambda>t. kde_ds1 (\<lambda>xs t. if t \<in> set xs then 1 else 1 / 2) [0, 1] t * 1) [0])
          (map (\<lambda>t. kde_ds1 (\<lambda>xs t. if t \<in> set xs then 1 else 1 / 2) [0, 1] t * 1) [1]) 1
   \<and> psi_ds2 (\<lambda>xs t. if t \<in> set xs then 1 else 1 / 2) [0, 1] [0] 1 = Inr (ln 2)
   \<and> correction (map (\<lambda>t. kde_ds2 (\<lambda>xs t. if t \<in> set xs then 1 else 1 / 2) [0, 1] t * 1) [0])
          (map (\<lambda>t. kde_ds2 (\<lambda>xs t. if t \<in> set xs then 1 else 1 / 2) [0, 1] t * 1) [0]) 1
      = Inr ((ln 2 - 1) / 2)
   \<and> factor_C (p_r_ds2 (\<lambda>xs t. if t \<in> set xs then 1 else 1 / 2) [0, 1] [0] 1) 1 = Inr (- 1)
   \<and> factor_C (map (\<lambda>t. kde_ds2 (\<lambda>xs t. if t \<in> set xs then 1 else 1 / 2) [0, 1] t * 1) [0]) 1
      = Inr ((ln 2 - 1) / 2)
   \<and> ln 2 \<noteq> ((ln 2 - 1) / 2 :: real)"
proof -
  have "ln 2 \<noteq> ((ln 2 - 1) / 2 :: real)"
  proof -
    have pos: "0 < ln (2 :: real)" by simp
    show ?thesis
    proof
      assume "ln 2 = ((ln 2 - 1) / 2 :: real)"
      with pos show False by argo
    qed
  qed
  then show ?thesis
    by (simp add: psi_ds1_def psi_ds2_def p_r_ds1_def p_r_ds2_def p_xi_ds1_def p_xi_ds2_def
        kde_ds1_def kde_ds2_def half_split_def correction_def factor_A_def factor_B_def
        factor_C_def nu_def nu_pr_def phi_pr_def np_mean_def ln_div field_simps)
qed

section \<open>Seeds\<close>

lemma data_gen_reseeds: "data_gen R N beta seed g = data_gen R N beta seed g'"
  by (simp add: data_gen_def)

text \<open>
  Claim C8, as the code has it. A replicate of the k-fold notebook is a function of
  \<open>N\<close>, \<open>beta\<close>, the fold count and the seed alone: whatever state the global generator
  is in before the replicate, \<open>data_gen\<close> sets it from the seed, and the shuffle of the
  folds reads the state \<open>data_gen\<close> leaves. (The fit of the linear regression draws no
  random numbers.)
\<close>

theorem kfold_replicate_fixed_by_seed:
  "kfold_replicate R fit N beta k cond_X_est seed g
     = kfold_replicate R fit N beta k cond_X_est seed g'"
  by (simp add: kfold_replicate_def data_gen_reseeds [of R N beta seed g g'])

lemma draws_numeral:
  "draws d (numeral k) g =
     (let r = d g; rest = draws d (pred_numeral k) (snd r) in (fst r # fst rest, snd rest))"
  by (simp add: numeral_eq_Suc)

theorem kfold_replicate_fixed_by_seed_witness:
  "kfold_replicate
      \<lparr>seed_state = (\<lambda>s. nat s), binomial = (\<lambda>g. (real (g mod 2), g + 1)),
       randn = (\<lambda>g. (0, g + 1)), shuffle = (\<lambda>g xs. (rev xs, g + 1))\<rparr>
      (\<lambda>X_train y_train x. sum_list y_train / real (length y_train))
      4 [1, 1, 0, 0, 0, 0] 2 [1, 1, 1, 1] 7 (0 :: nat)
    = kfold_replicate
      \<lparr>seed_state = (\<lambda>s. nat s), binomial = (\<lambda>g. (real (g mod 2), g + 1)),
       randn = (\<lambda>g. (0, g + 1)), shuffle = (\<lambda>g xs. (rev xs, g + 1))\<rparr>
      (\<lambda>X_train y_train x. sum_list y_train / real (length y_train))
      4 [1, 1, 0, 0, 0, 0] 2 [1, 1, 1, 1] 7 (5 :: nat)
   \<and> kfold_replicate
      \<lparr>seed_state = (\<lambda>s. nat s), binomial = (\<lambda>g. (real (g mod 2), g + 1)),
       randn = (\<lambda>g. (0, g + 1)), shuffle = (\<lambda>g xs. (rev xs, g + 1))\<rparr>
      (\<lambda>X_train y_train x. sum_list y_train / real (length y_train))
      4 [1, 1, 0, 0, 0, 0] 2 [1, 1, 1, 1] 7 (5 :: nat) = Inr (3 / 2, 2)"
proof -
  have upt4: "[0..<4] = [0, 1, 2, 3]" and upt2: "[0..<2] = [0, 1]"
    by code_simp+
  have run: "kfold_replicate
      \<lparr>seed_state = (\<lambda>s. nat s), binomial = (\<lambda>g. (real (g mod 2), g + 1)),
       randn = (\<lambda>g. (0, g + 1)), shuffle = (\<lambda>g xs. (rev xs, g + 1))\<rparr>
      (\<lambda>X_train y_train x. sum_list y_train / real (length y_train))
      4 [1, 1, 0, 0, 0, 0] 2 [1, 1, 1, 1] 7 (5 :: nat) = Inr (3 / 2, 2)"
    by (simp add: kfold_replicate_def data_gen_def draws_numeral design_def dot_def upt4 upt2
        KFold_split_def fold_sizes_def kfold_estimate_def fold_body_def
        take_idx_def Let_def influence_def pmf_def matching_rows_def p_cats_of_def np_unique_def
        np_mean_def)
  from kfold_replicate_fixed_by_seed [of
      "\<lparr>seed_state = (\<lambda>s. nat s), binomial = (\<lambda>g. (real (g mod 2), g + 1)),
       randn = (\<lambda>g. (0, g + 1)), shuffle = (\<lambda>g xs. (rev xs, g + 1))\<rparr>"
      "\<lambda>X_train y_train x. sum_list y_train / real (length y_train)"
      4 "[1, 1, 0, 0, 0, 0]" 2 "[1, 1, 1, 1]" 7 0 5] run
  show ?thesis by simp
qed

text \<open>
  The tutorial has no seed. With the same \<open>N\<close>, \<open>beta\<close> and query vector, two runs that
  start from different generator states return different estimates. Here the generator
  counts its draws (a Bernoulli draw is the parity of the count, a normal draw is 0), the
  forest predicts the mean of the training outcomes, and the two runs start at counts 0
  and 1.
\<close>

theorem tutorial_depends_on_generator_state:
  "tutorial_run
      \<lparr>seed_state = (\<lambda>s. 0), binomial = (\<lambda>g. (real (g mod 2), g + 1)),
       randn = (\<lambda>g. (0, g + 1)), shuffle = (\<lambda>g xs. (xs, g))\<rparr>
      (\<lambda>g X_train y_train. (\<lambda>x. sum_list y_train / real (length y_train), g))
      3 [1, 1, 0, 0, 0, 0] [0, 0, 0, 0] (0 :: nat) = Inr (ln 2 / 4, ln 2 / 4)
   \<and> tutorial_run
      \<lparr>seed_state = (\<lambda>s. 0), binomial = (\<lambda>g. (real (g mod 2), g + 1)),
       randn = (\<lambda>g. (0, g + 1)), shuffle = (\<lambda>g xs. (xs, g))\<rparr>
      (\<lambda>g X_train y_train. (\<lambda>x. sum_list y_train / real (length y_train), g))
      3 [1, 1, 0, 0, 0, 0] [0, 0, 0, 0] (1 :: nat) = Inr (3 * ln 2 / 4, 3 * ln 2 / 4)
   \<and> ln 2 / 4 \<noteq> (3 * ln 2 / 4 :: real)"
  by (simp add: tutorial_run_def data_gen_tutorial_def draws_numeral Let_def design_def dot_def
      np_log_def tutorial_estimate_def half_split_def influence_def np_add_def np_mean_def)

end
